theory Spec2Isabelle
  imports Main "HOL-Library.Sublist"
begin

text \<open>
  The client of \<open>arthur\<close>: the workbench with its stack of tools, as the tests of
  \<open>test/test_ui.py\<close> see it, and the start of a session in \<open>connection.py\<close>, which
  makes sure of a client identity on disk and connects to the server.
\<close>

section \<open>Tools and the workbench\<close>

text \<open>
  A tool is an object with a name and a widget (\<open>DummyTool\<close> in \<open>test/test_ui.py\<close>; the
  position of a tool plays no part in what follows and is left out). Widgets are told
  apart by what they show: the dummy widgets of the tests carry a number, the widgets of
  the three interaction primitives carry their text.
\<close>

datatype widget =
    DummyWidget nat
  | SplashWidget string
  | PromptWidget string
  | NotificationWidget string

record tool =
  name :: string
  widget :: widget

definition DummyTool :: "string \<Rightarrow> nat \<Rightarrow> tool" where
  "DummyTool n i = \<lparr>name = n, widget = DummyWidget i\<rparr>"

text \<open>
  What the workbench renders, as far as \<open>WorkbenchTests.assertDisplayed\<close> and
  \<open>ConstantsTests.test_background\<close> look at it: an attribute map around a widget, an
  overlay of a tool's widget (\<open>top_w\<close>) over what is below (\<open>bottom_w\<close>), a solid fill.
\<close>

datatype urwid =
    SolidFill
  | Overlay widget urwid
  | AttrMap string urwid

definition BACKGROUND :: urwid where
  "BACKGROUND = AttrMap ''background'' SolidFill"

text \<open>
  The stack of tools is a list whose head is the top tool, the order in which
  \<open>assertDisplayed\<close> receives it.
\<close>

record workbench =
  tools :: "tool list"
  header_title :: string
  body :: urwid

datatype exn =
    ConnectError string
  | EmptyStack
  | AlreadyCalledError
  | OSError string
  | IOError string
  | OtherError string

text \<open>
  Modelled from the spec: the module \<open>arthur/ui.py\<close> (class \<open>Workbench\<close> with \<open>display\<close>,
  \<open>undisplay\<close> and \<open>clear\<close>) is not among the sources. The empty workbench has an empty
  title (\<open>HeaderTests.test_title\<close>) and the background as its body
  (\<open>WorkbenchTests.test_background\<close>).
\<close>

definition Workbench :: workbench where
  "Workbench = \<lparr>tools = [], header_title = [], body = BACKGROUND\<rparr>"

text \<open>
  Modelled from the spec: \<open>display(tool)\<close> pushes the tool on top, layers its renderable
  over the previous surface and sets the header title to the tool's name. The
  \<open>foreground\<close> attribute of a layer is the one \<open>assertDisplayed\<close> asks for.
\<close>

definition display :: "tool \<Rightarrow> workbench \<Rightarrow> workbench" where
  "display t wb =
     \<lparr>tools = t # tools wb,
      header_title = name t,
      body = AttrMap ''foreground'' (Overlay (widget t) (body wb))\<rparr>"

text \<open>
  Modelled from the spec: the surface below the top layer, for \<open>undisplay\<close>; a surface
  that is no layer is left as it is.
\<close>

fun below :: "urwid \<Rightarrow> urwid" where
  "below (AttrMap a (Overlay top_w bottom_w)) = bottom_w"
| "below u = u"

text \<open>
  Modelled from the spec: \<open>undisplay()\<close> pops the top tool. If the stack becomes empty,
  the rendering reverts to the plain background and the title becomes empty; otherwise
  the new top's name becomes the title, and the top layer is taken off the surface. The
  spec defines no result on an empty stack: the model raises there and changes nothing.
\<close>

definition undisplay :: "workbench \<Rightarrow> exn + workbench" where
  "undisplay wb =
     (case tools wb of
        [] \<Rightarrow> Inl EmptyStack
      | t # ts \<Rightarrow>
          (if ts = [] then Inr \<lparr>tools = [], header_title = [], body = BACKGROUND\<rparr>
           else Inr \<lparr>tools = ts, header_title = name (hd ts), body = below (body wb)\<rparr>))"

text \<open>
  Modelled from the spec: \<open>clear()\<close> removes all tools in one step and is idempotent on
  an empty stack.
\<close>

definition clear :: "workbench \<Rightarrow> workbench" where
  "clear wb = \<lparr>tools = [], header_title = [], body = BACKGROUND\<rparr>"

subsection \<open>The check of the workbench tests\<close>

text \<open>
  \<open>WorkbenchTests.assertDisplayed(tools)\<close>, lines 74 to 89 of \<open>test/test_ui.py\<close>: the
  title is that of the first tool given, or empty; walking down from the body, every
  layer is a \<open>foreground\<close> attribute map around an overlay whose top widget is the
  tool's; what remains at the end is the background. A failed assertion is \<open>False\<close>.
\<close>

fun layers_show :: "urwid \<Rightarrow> tool list \<Rightarrow> bool" where
  "layers_show layer [] = (layer = BACKGROUND)"
| "layers_show layer (t # ts) =
     (case layer of
        AttrMap a (Overlay top_w bottom_w) \<Rightarrow>
          a = ''foreground'' \<and> top_w = widget t \<and> layers_show bottom_w ts
      | _ \<Rightarrow> False)"

definition assertDisplayed :: "workbench \<Rightarrow> tool list \<Rightarrow> bool" where
  "assertDisplayed wb ts =
     (header_title wb = (if ts = [] then [] else name (hd ts)) \<and> layers_show (body wb) ts)"

subsection \<open>Sequences of workbench operations\<close>

datatype wb_op = Display tool | Undisplay | Clear

fun run_op :: "workbench \<Rightarrow> wb_op \<Rightarrow> exn + workbench" where
  "run_op wb (Display t) = Inr (display t wb)"
| "run_op wb Undisplay = undisplay wb"
| "run_op wb Clear = Inr (clear wb)"

fun run_ops :: "workbench \<Rightarrow> wb_op list \<Rightarrow> exn + workbench" where
  "run_ops wb [] = Inr wb"
| "run_ops wb (x # xs) =
     (case run_op wb x of Inl e \<Rightarrow> Inl e | Inr wb' \<Rightarrow> run_ops wb' xs)"

text \<open>
  The tools displayed and not yet removed, most recent first, computed from the
  operations alone.
\<close>

fun displayed_after :: "tool list \<Rightarrow> wb_op list \<Rightarrow> tool list" where
  "displayed_after ts [] = ts"
| "displayed_after ts (Display t # xs) = displayed_after (t # ts) xs"
| "displayed_after ts (Undisplay # xs) = displayed_after (tl ts) xs"
| "displayed_after ts (Clear # xs) = displayed_after [] xs"

section \<open>The world of \<open>connection.py\<close>\<close>

subsection \<open>Files\<close>

text \<open>
  A path is the list of its components below the root (\<open>FilePath\<close> keeps paths
  absolute and normalised); a file system maps the paths that exist to a directory or to
  a regular file with its contents. The root always exists and is a directory.
\<close>

type_synonym path = "string list"
type_synonym bytes = string

datatype node = Dir | File bytes

type_synonym filesystem = "path \<Rightarrow> node option"

definition path_exists :: "filesystem \<Rightarrow> path \<Rightarrow> bool" where
  "path_exists fs p = (p = [] \<or> fs p \<noteq> None)"

definition isdir :: "filesystem \<Rightarrow> path \<Rightarrow> bool" where
  "isdir fs p = (p = [] \<or> fs p = Some Dir)"

definition isfile :: "filesystem \<Rightarrow> path \<Rightarrow> bool" where
  "isfile fs p = (p \<noteq> [] \<and> (case fs p of Some (File b) \<Rightarrow> True | _ \<Rightarrow> False))"

definition child :: "path \<Rightarrow> string \<Rightarrow> path" where
  "child p n = p @ [n]"

text \<open>
  \<open>os.mkdir\<close>: the path must not exist and its parent must be a directory; a parent
  that is a regular file gives \<open>ENOTDIR\<close>, a parent that is missing \<open>ENOENT\<close>.
\<close>

definition mkdir :: "filesystem \<Rightarrow> path \<Rightarrow> exn + filesystem" where
  "mkdir fs p =
     (if path_exists fs p then Inl (OSError ''EEXIST'')
      else if isdir fs (butlast p) then Inr (fs(p \<mapsto> Dir))
      else if path_exists fs (butlast p) then Inl (OSError ''ENOTDIR'')
      else Inl (OSError ''ENOENT''))"

text \<open>
  \<open>FilePath.makedirs\<close> is \<open>os.makedirs\<close>: when the parent does not exist it is made
  first (an \<open>EEXIST\<close> from that call is passed over), then the directory itself is made
  with \<open>mkdir\<close>.
\<close>

function makedirs :: "filesystem \<Rightarrow> path \<Rightarrow> exn + filesystem" where
  "makedirs fs p =
     (if p \<noteq> [] \<and> \<not> path_exists fs (butlast p) then
        (case makedirs fs (butlast p) of
           Inl e \<Rightarrow> (if e = OSError ''EEXIST'' then mkdir fs p else Inl e)
         | Inr fs' \<Rightarrow> mkdir fs' p)
      else mkdir fs p)"
  by pat_completeness auto
termination
  by (relation "measure (\<lambda>(fs, p). length p)") auto

declare makedirs.simps [simp del]

text \<open>
  \<open>open(path, "wb")\<close> creates the file or truncates it at once; \<open>open(path)\<close> and
  \<open>read\<close> give the contents of a regular file.
\<close>

definition open_wb :: "filesystem \<Rightarrow> path \<Rightarrow> exn + filesystem" where
  "open_wb fs p =
     (if p = [] \<or> fs p = Some Dir then Inl (IOError ''EISDIR'')
      else if isdir fs (butlast p) then Inr (fs(p \<mapsto> File []))
      else if path_exists fs (butlast p) then Inl (IOError ''ENOTDIR'')
      else Inl (IOError ''ENOENT''))"

text \<open>
  A file opened for writing is buffered: \<open>write\<close> hands its data to the file object,
  which passes on to the file as much of what it has been handed as it sees fit, and the
  rest when the file is closed. What the file holds when the object has passed on the
  first \<open>n\<close> bytes of what it was handed: never less than the file held, never more
  than the object was handed.
\<close>

definition held :: "filesystem \<Rightarrow> path \<Rightarrow> bytes" where
  "held fs p = (case fs p of Some (File b) \<Rightarrow> b | _ \<Rightarrow> [])"

definition passed :: "nat \<Rightarrow> bytes \<Rightarrow> bytes \<Rightarrow> bytes" where
  "passed n on_disk handed = take (max (length on_disk) (min n (length handed))) handed"

definition read_file :: "filesystem \<Rightarrow> path \<Rightarrow> exn + bytes" where
  "read_file fs p =
     (if p = [] then Inl (IOError ''EISDIR'')
      else (case fs p of
              Some (File b) \<Rightarrow> Inr b
            | Some Dir \<Rightarrow> Inl (IOError ''EISDIR'')
            | None \<Rightarrow> Inl (IOError ''ENOENT'')))"

subsection \<open>What the program is given\<close>

datatype privkey = Key nat
datatype x509 = Cert nat
datatype private_certificate = PrivateCertificate nat
datatype context_factory = CertificateOptions nat

datatype pyval = PyNone | Protocol nat

text \<open>A Deferred has not fired yet, or has fired with a failure or with a result.\<close>

datatype 'a deferred = Pending | Fired "exn + 'a"

text \<open>
  Everything \<open>connection.py\<close> takes from outside itself: the platform name read at import
  (\<open>thisSystem\<close>), the directory \<open>expanduser\<close> puts for \<open>~\<close>, the text the user types
  into the e-mail prompt and confirms (\<open>None\<close>: the user never confirms), the functions of
  \<open>clarent.certificate\<close>, \<open>OpenSSL.crypto\<close> and \<open>twisted.internet.ssl\<close>, each of which
  may raise where its result is a sum, whether the first or the second \<open>write\<close> to the
  identity file raises and whether its \<open>close\<close> raises, how many bytes the file object
  has passed on to the file at the end of the first write, of the second write and of a
  close that raises (\<open>flushed\<close> at 0, 1 and 2; with a small bundle and no exception the
  buffer passes nothing on before the close), and what the Deferred of
  \<open>endpoint.connect\<close> fires with (\<open>None\<close>: it never fires). An exception carries its \<open>repr\<close>; \<open>ConnectError\<close> stands for
  the class of that name and its subclasses.
\<close>

record env =
  thisSystem :: string
  home :: path
  entered :: "string option"
  generateKey :: "exn + privkey"
  makeCertificate :: "privkey \<Rightarrow> string \<Rightarrow> exn + x509"
  dump_privatekey :: "privkey \<Rightarrow> bytes"
  dump_certificate :: "x509 \<Rightarrow> bytes"
  write_error :: "nat \<Rightarrow> exn option"
  flushed :: "nat \<Rightarrow> nat"
  close_error :: "exn option"
  loadPEM :: "bytes \<Rightarrow> exn + private_certificate"
  options :: "private_certificate \<Rightarrow> context_factory"
  endpoint_connect :: "(exn + pyval) option"

text \<open>
  The state the program changes: the workbench it is handed, the file system, and the
  calls it has made on the workbench and on its collaborators, in order.
\<close>

datatype event =
    Displayed tool
  | Undisplayed
  | CalledGenerateKey
  | CalledMakeCertificate privkey string
  | CalledConnect string nat context_factory

record world =
  bench :: workbench
  files :: filesystem
  trace :: "event list"

definition w_display :: "tool \<Rightarrow> world \<Rightarrow> world" where
  "w_display t w = w\<lparr>bench := display t (bench w), trace := trace w @ [Displayed t]\<rparr>"

definition w_undisplay :: "world \<Rightarrow> exn option \<times> world" where
  "w_undisplay w =
     (case undisplay (bench w) of
        Inl e \<Rightarrow> (Some e, w)
      | Inr b \<Rightarrow> (None, w\<lparr>bench := b, trace := trace w @ [Undisplayed]\<rparr>))"

definition called :: "event \<Rightarrow> world \<Rightarrow> world" where
  "called e w = w\<lparr>trace := trace w @ [e]\<rparr>"

subsection \<open>The interaction primitives\<close>

text \<open>
  Modelled from the spec: \<open>ui._Splash\<close> is not among the sources. A status splash is a
  tool with a name and a text, displayed and dismissed by its caller.
\<close>

definition Splash :: "string \<Rightarrow> string \<Rightarrow> tool" where
  "Splash n text = \<lparr>name = n, widget = SplashWidget text\<rparr>"

text \<open>
  Modelled from the spec: \<open>ui.prompt\<close> and \<open>ui._Prompt\<close> are not among the sources. A
  prompt displays a labelled text entry field and a confirm action; it holds a pending
  single-value continuation, which confirming resolves with the entered text, and then
  pops itself with \<open>undisplay\<close>. The continuation can be resolved once: confirming a
  prompt already resolved raises and changes nothing. The field starts empty and typed
  text is added at its end (\<open>PromptTests.test_prompt\<close>).
\<close>

record prompt_state =
  prompt_tool :: tool
  edit_text :: string
  answer :: "string option"

text \<open>
  Modelled from the spec: \<open>ui.prompt(workbench, name, promptText)\<close> makes the prompt
  tool, displays it and returns its pending continuation.
\<close>

definition prompt :: "string \<Rightarrow> string \<Rightarrow> world \<Rightarrow> prompt_state \<times> world" where
  "prompt n caption w =
     (let t = \<lparr>name = n, widget = PromptWidget caption\<rparr>
      in (\<lparr>prompt_tool = t, edit_text = [], answer = None\<rparr>, w_display t w))"

text \<open>
  Modelled from the spec: the user types into the text entry field (\<open>edit.insert_text\<close>
  in \<open>PromptTests.test_prompt\<close>).
\<close>

definition insert_text :: "string \<Rightarrow> prompt_state \<Rightarrow> prompt_state" where
  "insert_text s p = p\<lparr>edit_text := edit_text p @ s\<rparr>"

text \<open>
  Modelled from the spec: the confirm action of the prompt. The result is what the
  continuation is resolved with, or the exception raised.
\<close>

definition click :: "prompt_state \<Rightarrow> world \<Rightarrow> (exn + string) \<times> prompt_state \<times> world" where
  "click p w =
     (case answer p of
        Some v \<Rightarrow> (Inl AlreadyCalledError, p, w)
      | None \<Rightarrow>
          (let p' = p\<lparr>answer := Some (edit_text p)\<rparr>
           in (case w_undisplay w of
                 (Some e, w') \<Rightarrow> (Inl e, p', w')
               | (None, w') \<Rightarrow> (Inr (edit_text p), p', w'))))"

text \<open>
  Modelled from the spec: \<open>ui.alert\<close> is not among the sources. A notification displays
  a message and a dismiss action and returns a pending no-value continuation, resolved
  when the user dismisses it.
\<close>

definition alert :: "string \<Rightarrow> string \<Rightarrow> world \<Rightarrow> unit deferred \<times> world" where
  "alert n text w = (Pending, w_display \<lparr>name = n, widget = NotificationWidget text\<rparr> w)"

subsection \<open>\<open>_getDataPath\<close>\<close>

text \<open>
  \<open>expanduser\<close> puts the home directory for a leading \<open>~\<close>; \<open>FilePath\<close> drops the
  trailing separator. The functions of \<open>connection.py\<close> whose names start with an
  underscore are written without it.
\<close>

definition expanduser :: "path \<Rightarrow> path \<Rightarrow> path" where
  "expanduser h p = (case p of [] \<Rightarrow> [] | c # cs \<Rightarrow> (if c = ''~'' then h @ cs else p))"

definition getDataPath :: "path \<Rightarrow> string \<Rightarrow> path" where
  "getDataPath h system =
     (let p = (if system = ''Windows'' then [''~'', ''Crypto101''] else [''~'', ''.crypto101''])
      in expanduser h p)"

subsection \<open>\<open>_makeCredentials\<close>\<close>

text \<open>
  \<open>pemFile.write(data)\<close>, the \<open>i\<close>-th write of the block: the data are added to what
  the file object has been handed, and the file holds what the object has passed on.
  A write that raises leaves the file and the object as they were.
\<close>

definition write_file ::
  "env \<Rightarrow> nat \<Rightarrow> filesystem \<Rightarrow> path \<Rightarrow> bytes \<Rightarrow> bytes \<Rightarrow> exn + (filesystem \<times> bytes)" where
  "write_file en i fs p handed d =
     (case write_error en i of
        Some e \<Rightarrow> Inl e
      | None \<Rightarrow>
          Inr (fs(p \<mapsto> File (passed (flushed en i) (held fs p) (handed @ d))), handed @ d))"

text \<open>
  The close at the end of the \<open>with\<close> block, which is made also when the block is left
  by an exception: everything the object was handed reaches the file, or the close
  raises and the file holds what has been passed on by then.
\<close>

definition close_file :: "env \<Rightarrow> filesystem \<Rightarrow> path \<Rightarrow> bytes \<Rightarrow> exn option \<times> filesystem" where
  "close_file en fs p handed =
     (case close_error en of
        Some e \<Rightarrow> (Some e, fs(p \<mapsto> File (passed (flushed en 2) (held fs p) handed)))
      | None \<Rightarrow> (None, fs(p \<mapsto> File handed)))"

text \<open>
  The \<open>with\<close> block of lines 84 to 86: the file is opened for writing, the key is
  written, then the certificate, and the file is closed. The result is the exception
  that left the block, if any (that of the close when the close raises), and the file
  systems the block went through, one after each step made.
\<close>

definition writePem :: "env \<Rightarrow> filesystem \<Rightarrow> path \<Rightarrow> privkey \<Rightarrow> x509 \<Rightarrow> exn option \<times> filesystem list" where
  "writePem en fs p k c =
     (case open_wb fs p of
        Inl e \<Rightarrow> (Some e, [])
      | Inr fs1 \<Rightarrow>
          (case write_file en 0 fs1 p [] (dump_privatekey en k) of
             Inl e \<Rightarrow>
               (case close_file en fs1 p [] of
                  (Some e', fs2) \<Rightarrow> (Some e', [fs1, fs2])
                | (None, fs2) \<Rightarrow> (Some e, [fs1, fs2]))
           | Inr (fs2, handed2) \<Rightarrow>
               (case write_file en 1 fs2 p handed2 (dump_certificate en c) of
                  Inl e \<Rightarrow>
                    (case close_file en fs2 p handed2 of
                       (Some e', fs3) \<Rightarrow> (Some e', [fs1, fs2, fs3])
                     | (None, fs3) \<Rightarrow> (Some e, [fs1, fs2, fs3]))
                | Inr (fs3, handed3) \<Rightarrow>
                    (case close_file en fs3 p handed3 of
                       (err, fs4) \<Rightarrow> (err, [fs1, fs2, fs3, fs4])))))"

text \<open>
  \<open>_makeCredentials\<close>, lines 71 to 88. Its docstring says that it asks the user for the
  e-mail address and returns the private certificate; the code does neither: the
  address is its parameter and it has no \<open>return\<close>.
\<close>

definition makeCredentials :: "env \<Rightarrow> path \<Rightarrow> string \<Rightarrow> world \<Rightarrow> exn option \<times> world" where
  "makeCredentials en p email w =
     (let w1 = w_display (Splash ''SSL credential generation''
                 ''Generating SSL credentials. (This can take a while.)'') w;
          w2 = called CalledGenerateKey w1
      in (case generateKey en of
            Inl e \<Rightarrow> (Some e, w2)
          | Inr k \<Rightarrow>
              (let w3 = called (CalledMakeCertificate k email) w2
               in (case makeCertificate en k email of
                     Inl e \<Rightarrow> (Some e, w3)
                   | Inr c \<Rightarrow>
                       (let (err, seen) = writePem en (files w3) (child p ''client.pem'') k c;
                            w4 = w3\<lparr>files := last (files w3 # seen)\<rparr>
                        in (case err of
                              Some e \<Rightarrow> (Some e, w4)
                            | None \<Rightarrow> w_undisplay w4))))))"

subsection \<open>\<open>_getContextFactory\<close>\<close>

text \<open>Lines 65 to 68: the identity file is read and parsed, and the options returned.\<close>

definition loadContext :: "env \<Rightarrow> filesystem \<Rightarrow> path \<Rightarrow> exn + context_factory" where
  "loadContext en fs pemPath =
     (case read_file fs pemPath of
        Inl e \<Rightarrow> Inl e
      | Inr b \<Rightarrow>
          (case loadPEM en b of
             Inl e \<Rightarrow> Inl e
           | Inr c \<Rightarrow> Inr (options en c)))"

text \<open>Lines 57 and 58: the directory is made unless it is one already.\<close>

definition ensureDirectory :: "filesystem \<Rightarrow> path \<Rightarrow> exn + filesystem" where
  "ensureDirectory fs p = (if isdir fs p then Inr fs else makedirs fs p)"

text \<open>
  The generator runs up to the \<open>yield\<close> of the prompt; when the user confirms, the
  prompt pops itself and the generator goes on with the text entered. An exception
  anywhere in the generator is the failure of its Deferred.
\<close>

definition getContextFactory :: "env \<Rightarrow> world \<Rightarrow> context_factory deferred \<times> world" where
  "getContextFactory en w =
     (let p = getDataPath (home en) (thisSystem en)
      in (case ensureDirectory (files w) p of
            Inl e \<Rightarrow> (Fired (Inl e), w)
          | Inr fs1 \<Rightarrow>
              (let w1 = w\<lparr>files := fs1\<rparr>;
                   pemPath = child p ''client.pem''
               in if \<not> isfile (files w1) pemPath
                  then (let (pr, w2) = prompt ''E-mail entry'' ''Enter e-mail:'' w1
                        in (case entered en of
                              None \<Rightarrow> (Pending, w2)
                            | Some s \<Rightarrow>
                                (case click (insert_text s pr) w2 of
                                   (Inl e, pr', w3) \<Rightarrow> (Fired (Inl e), w3)
                                 | (Inr email, pr', w3) \<Rightarrow>
                                     (case makeCredentials en p email w3 of
                                        (Some e, w4) \<Rightarrow> (Fired (Inl e), w4)
                                      | (None, w4) \<Rightarrow>
                                          (Fired (loadContext en (files w4) pemPath), w4)))))
                  else (Fired (loadContext en (files w1) pemPath), w1))))"

subsection \<open>\<open>_connectWithContextFactory\<close> and \<open>connect\<close>\<close>

text \<open>
  Lines 25 to 31: the splash is displayed and the connection attempt started. The world
  stays so until the Deferred of the attempt fires.
\<close>

definition startConnect :: "context_factory \<Rightarrow> world \<Rightarrow> world" where
  "startConnect ctxFactory w =
     called (CalledConnect ''localhost'' 4430 ctxFactory)
       (w_display (Splash ''Connecting'' ''Connecting...'') w)"

text \<open>
  \<open>closeSplash\<close>, added with \<open>addBoth\<close>: it is called with the result or the failure and
  returns what it was called with. An exception in a callback is the failure the
  Deferred goes on with.
\<close>

definition closeSplash :: "exn + pyval \<Rightarrow> world \<Rightarrow> (exn + pyval) \<times> world" where
  "closeSplash returnValue w =
     (case w_undisplay w of
        (Some e, w') \<Rightarrow> (Inl e, w')
      | (None, w') \<Rightarrow> (returnValue, w'))"

text \<open>
  \<open>notifyFailure\<close>, added with \<open>addErrback\<close>: \<open>f.trap(ConnectError)\<close> raises the failure
  again unless it is a \<open>ConnectError\<close>; then the alert is shown and the function ends
  without a \<open>return\<close>, so that the Deferred goes on with the result \<open>None\<close>.
\<close>

definition failure_text :: "string \<Rightarrow> string" where
  "failure_text r =
     ''Connection failed! Check internet connection, or try again later. ''
       @ [CHR 0x0A] @ ''Error: '' @ r"

definition notifyFailure :: "exn \<Rightarrow> world \<Rightarrow> (exn + pyval) \<times> world" where
  "notifyFailure f w =
     (case f of
        ConnectError r \<Rightarrow>
          (let (d, w') = alert (''Couldn'' @ [CHR 0x27] @ ''t connect'') (failure_text r) w
           in (Inr PyNone, w'))
      | _ \<Rightarrow> (Inl f, w))"

text \<open>The callbacks of the attempt's Deferred, run in the order they were added.\<close>

definition attemptFired :: "exn + pyval \<Rightarrow> world \<Rightarrow> pyval deferred \<times> world" where
  "attemptFired r w =
     (let (r1, w1) = closeSplash r w;
          (r2, w2) = (case r1 of Inl f \<Rightarrow> notifyFailure f w1 | Inr v \<Rightarrow> (Inr v, w1))
      in (Fired r2, w2))"

definition connectWithContextFactory :: "env \<Rightarrow> context_factory \<Rightarrow> world \<Rightarrow> pyval deferred \<times> world" where
  "connectWithContextFactory en ctxFactory w =
     (let w1 = startConnect ctxFactory w
      in (case endpoint_connect en of
            None \<Rightarrow> (Pending, w1)
          | Some r \<Rightarrow> attemptFired r w1))"

text \<open>
  \<open>connect\<close>: the callback runs when the context factory is there, and its Deferred
  becomes the result; a failure of \<open>_getContextFactory\<close> passes the callback by.
\<close>

definition connect :: "env \<Rightarrow> world \<Rightarrow> pyval deferred \<times> world" where
  "connect en w =
     (case getContextFactory en w of
        (Pending, w1) \<Rightarrow> (Pending, w1)
      | (Fired (Inl e), w1) \<Rightarrow> (Fired (Inl e), w1)
      | (Fired (Inr ctxFactory), w1) \<Rightarrow> connectWithContextFactory en ctxFactory w1)"

section \<open>Notions used in the properties\<close>

text \<open>The tools that \<open>connection.py\<close> puts on the workbench.\<close>

definition asking :: tool where
  "asking = \<lparr>name = ''E-mail entry'', widget = PromptWidget ''Enter e-mail:''\<rparr>"

definition generating :: tool where
  "generating =
     Splash ''SSL credential generation'' ''Generating SSL credentials. (This can take a while.)''"

definition connecting :: tool where
  "connecting = Splash ''Connecting'' ''Connecting...''"

definition notification :: "string \<Rightarrow> tool" where
  "notification r =
     \<lparr>name = ''Couldn'' @ [CHR 0x27] @ ''t connect'', widget = NotificationWidget (failure_text r)\<rparr>"

text \<open>The workbench after a tool has been displayed on it and undisplayed again.\<close>

definition restored :: "workbench \<Rightarrow> workbench" where
  "restored b =
     (if tools b = [] then \<lparr>tools = [], header_title = [], body = BACKGROUND\<rparr>
      else \<lparr>tools = tools b, header_title = name (hd (tools b)), body = body b\<rparr>)"

text \<open>A Deferred that has fired with a failure.\<close>

definition failed :: "'a deferred \<Rightarrow> bool" where
  "failed d = (case d of Fired (Inl e) \<Rightarrow> True | _ \<Rightarrow> False)"

text \<open>The user types some pieces of text into a prompt, one after the other.\<close>

definition typed :: "string list \<Rightarrow> prompt_state \<Rightarrow> prompt_state" where
  "typed ss p = fold insert_text ss p"

text \<open>
  What a reader of the identity file finds at each point of the \<open>with\<close> block: before
  it, and after each step it makes. Such a finding is harmless when there is no file or
  when the file holds the whole bundle, the key followed by the certificate.
\<close>

definition identity_file_seen :: "env \<Rightarrow> filesystem \<Rightarrow> path \<Rightarrow> privkey \<Rightarrow> x509 \<Rightarrow> node option list" where
  "identity_file_seen en fs p k c = map (\<lambda>f. f p) (fs # snd (writePem en fs p k c))"

definition absent_or_complete :: "env \<Rightarrow> privkey \<Rightarrow> x509 \<Rightarrow> node option \<Rightarrow> bool" where
  "absent_or_complete en k c seen =
     (case seen of
        None \<Rightarrow> True
      | Some Dir \<Rightarrow> False
      | Some (File b) \<Rightarrow> b = dump_privatekey en k @ dump_certificate en c)"

text \<open>
  A file system is a tree when everything above a path that exists is a directory. A
  directory can be made at a path when no regular file lies at it or above it.
\<close>

definition tree_shaped :: "filesystem \<Rightarrow> bool" where
  "tree_shaped fs = (\<forall>p q. fs p \<noteq> None \<and> strict_prefix q p \<longrightarrow> isdir fs q)"

definition no_file_on :: "filesystem \<Rightarrow> path \<Rightarrow> bool" where
  "no_file_on fs p = (\<forall>q b. prefix q p \<longrightarrow> fs q \<noteq> Some (File b))"

subsection \<open>Concrete runs\<close>

text \<open>
  A user \<open>arthur\<close> on Linux: before the first run, with the store directory made, and
  with an identity in it. The collaborators below generate a key and a certificate whose
  PEM texts are \<open>KEY\<close> and \<open>CERT\<close>, the file object passes nothing on before the
  close, and the server refuses the connection. On the full disk the writes return and
  the close raises.
\<close>

definition fs_first_run :: filesystem where
  "fs_first_run = [[''home''] \<mapsto> Dir, [''home'', ''arthur''] \<mapsto> Dir]"

definition fs_store :: filesystem where
  "fs_store =
     [[''home''] \<mapsto> Dir, [''home'', ''arthur''] \<mapsto> Dir,
      [''home'', ''arthur'', ''.crypto101''] \<mapsto> Dir]"

definition fs_with_identity :: filesystem where
  "fs_with_identity =
     [[''home''] \<mapsto> Dir, [''home'', ''arthur''] \<mapsto> Dir,
      [''home'', ''arthur'', ''.crypto101''] \<mapsto> Dir,
      [''home'', ''arthur'', ''.crypto101'', ''client.pem''] \<mapsto> File ''KEYCERT'']"

definition env_refused :: env where
  "env_refused =
     \<lparr>thisSystem = ''Linux'', home = [''home'', ''arthur''], entered = Some ''a@b.com'',
      generateKey = Inr (Key 1), makeCertificate = (\<lambda>k e. Inr (Cert 1)),
      dump_privatekey = (\<lambda>k. ''KEY''), dump_certificate = (\<lambda>c. ''CERT''),
      write_error = (\<lambda>i. None), flushed = (\<lambda>i. 0), close_error = None,
      loadPEM = (\<lambda>b. if b = ''KEYCERT'' then Inr (PrivateCertificate 1)
                       else Inl (OtherError ''Error()'')),
      options = (\<lambda>c. CertificateOptions 1),
      endpoint_connect = Some (Inl (ConnectError ''ConnectionRefusedError()''))\<rparr>"

definition env_keygen_fails :: env where
  "env_keygen_fails = env_refused\<lparr>generateKey := Inl (OtherError ''Error()'')\<rparr>"

definition env_disk_full :: env where
  "env_disk_full = env_refused\<lparr>close_error := Some (IOError ''ENOSPC'')\<rparr>"

definition world_first_run :: world where
  "world_first_run = \<lparr>bench = Workbench, files = fs_first_run, trace = []\<rparr>"

definition world_store :: world where
  "world_store = \<lparr>bench = Workbench, files = fs_store, trace = []\<rparr>"

definition world_with_identity :: world where
  "world_with_identity = \<lparr>bench = Workbench, files = fs_with_identity, trace = []\<rparr>"

section \<open>The workbench invariant\<close>

lemma assertDisplayed_Workbench: "assertDisplayed Workbench (tools Workbench)"
  by (simp add: assertDisplayed_def Workbench_def)

lemma assertDisplayed_display:
  "assertDisplayed wb (tools wb) \<Longrightarrow> assertDisplayed (display t wb) (tools (display t wb))"
  by (simp add: assertDisplayed_def display_def)

lemma assertDisplayed_clear: "assertDisplayed (clear wb) (tools (clear wb))"
  by (simp add: assertDisplayed_def clear_def)

lemma assertDisplayed_undisplay:
  assumes "assertDisplayed wb (tools wb)" and "undisplay wb = Inr wb'"
  shows "assertDisplayed wb' (tools wb')"
proof (cases "tools wb")
  case Nil
  with assms(2) show ?thesis by (simp add: undisplay_def)
next
  case (Cons t ts)
  show ?thesis
  proof (cases "ts = []")
    case True
    with Cons assms(2) show ?thesis
      by (auto simp: undisplay_def assertDisplayed_def)
  next
    case False
    from assms(1) Cons have "layers_show (body wb) (t # ts)"
      by (simp add: assertDisplayed_def)
    then have "layers_show (below (body wb)) ts"
      by (auto split: urwid.splits)
    with Cons False assms(2) show ?thesis
      by (auto simp: undisplay_def assertDisplayed_def)
  qed
qed

lemma run_op_assertDisplayed:
  "assertDisplayed wb (tools wb) \<Longrightarrow> run_op wb x = Inr wb' \<Longrightarrow> assertDisplayed wb' (tools wb')"
  by (cases x) (auto intro: assertDisplayed_display assertDisplayed_clear assertDisplayed_undisplay)

lemma run_op_tools:
  "run_op wb x = Inr wb' \<Longrightarrow> displayed_after (tools wb) (x # xs) = displayed_after (tools wb') xs"
  by (cases x) (auto simp: display_def clear_def undisplay_def split: list.splits if_splits)

lemma run_ops_invariant:
  "assertDisplayed wb (tools wb) \<Longrightarrow> run_ops wb xs = Inr wb' \<Longrightarrow>
     tools wb' = displayed_after (tools wb) xs \<and> assertDisplayed wb' (tools wb')"
proof (induction xs arbitrary: wb)
  case Nil
  then show ?case by simp
next
  case (Cons x xs)
  from Cons.prems(2) obtain wb1 where step: "run_op wb x = Inr wb1" and rest: "run_ops wb1 xs = Inr wb'"
    by (auto split: sum.splits)
  from Cons.prems(1) step have "assertDisplayed wb1 (tools wb1)"
    by (rule run_op_assertDisplayed)
  from Cons.IH [OF this rest]
  have t: "tools wb' = displayed_after (tools wb1) xs" and a: "assertDisplayed wb' (tools wb')"
    by blast+
  from run_op_tools [OF step] have "displayed_after (tools wb) (x # xs) = displayed_after (tools wb1) xs" .
  with t have "tools wb' = displayed_after (tools wb) (x # xs)"
    by (rule ssubst [where P = "\<lambda>u. tools wb' = u", rotated]) 
  with a show ?case by blast
qed

text \<open>
  C7. Whatever sequence of \<open>display\<close>, \<open>undisplay\<close> and \<open>clear\<close> has been carried out on a
  new workbench, the stack holds the tools displayed and not yet removed, most recent
  first, and \<open>assertDisplayed\<close> passes for it: the title is the name of the top tool, or
  empty when there is none, and the body layers exactly these tools, top to bottom, over
  the background.
\<close>

theorem workbench_invariant:
  assumes "run_ops Workbench xs = Inr wb"
  shows "tools wb = displayed_after [] xs
         \<and> assertDisplayed wb (displayed_after [] xs)
         \<and> header_title wb = (case displayed_after [] xs of [] \<Rightarrow> [] | t # ts \<Rightarrow> name t)"
proof -
  have "tools Workbench = []"
    by (simp add: Workbench_def)
  with run_ops_invariant [OF assertDisplayed_Workbench assms]
  have t: "tools wb = displayed_after [] xs" and a: "assertDisplayed wb (tools wb)"
    by (metis, blast)
  from a have a': "assertDisplayed wb (displayed_after [] xs)"
    by (rule subst [OF t])
  then have "header_title wb = (case displayed_after [] xs of [] \<Rightarrow> [] | t # ts \<Rightarrow> name t)"
    by (cases "displayed_after [] xs") (simp_all add: assertDisplayed_def)
  with t a' show ?thesis by blast
qed

theorem workbench_invariant_witness:
  "run_ops Workbench [Display (DummyTool ''First'' 1), Display (DummyTool ''Second'' 2), Undisplay]
     = Inr (display (DummyTool ''First'' 1) Workbench)
   \<and> tools (display (DummyTool ''First'' 1) Workbench) = [DummyTool ''First'' 1]
   \<and> assertDisplayed (display (DummyTool ''First'' 1) Workbench) [DummyTool ''First'' 1]
   \<and> header_title (display (DummyTool ''First'' 1) Workbench) = ''First''"
proof -
  have r: "run_ops Workbench [Display (DummyTool ''First'' 1), Display (DummyTool ''Second'' 2), Undisplay]
     = Inr (display (DummyTool ''First'' 1) Workbench)"
    by (simp add: display_def undisplay_def Workbench_def DummyTool_def)
  from workbench_invariant [OF r] r show ?thesis
    by (simp add: DummyTool_def)
qed

section \<open>Displaying and undisplaying\<close>

lemma tools_restored: "tools (restored b) = tools b"
  by (simp add: restored_def)

lemma tools_display: "tools (display t b) = t # tools b"
  by (simp add: display_def)

lemma undisplay_display: "undisplay (display t b) = Inr (restored b)"
  by (simp add: undisplay_def display_def restored_def)

lemma w_undisplay_w_display:
  "w_undisplay (w_display t w) =
     (None, w\<lparr>bench := restored (bench w), trace := trace w @ [Displayed t, Undisplayed]\<rparr>)"
  by (simp add: w_undisplay_def w_display_def undisplay_display)

lemma w_undisplay_called_w_display:
  "w_undisplay (called e (w_display t w)) =
     (None, w\<lparr>bench := restored (bench w), trace := trace w @ [Displayed t, e, Undisplayed]\<rparr>)"
  by (simp add: w_undisplay_def w_display_def called_def undisplay_display)

section \<open>The prompt\<close>

lemma edit_text_fold: "edit_text (fold insert_text ss p) = edit_text p @ concat ss"
  by (induction ss arbitrary: p) (simp_all add: insert_text_def)

lemma answer_fold: "answer (fold insert_text ss p) = answer p"
  by (induction ss arbitrary: p) (simp_all add: insert_text_def)

lemma click_prompt:
  "click (insert_text s (fst (prompt n c w))) (snd (prompt n c w)) =
     (Inr s, \<lparr>prompt_tool = \<lparr>name = n, widget = PromptWidget c\<rparr>, edit_text = s, answer = Some s\<rparr>,
      w\<lparr>bench := restored (bench w),
        trace := trace w @ [Displayed \<lparr>name = n, widget = PromptWidget c\<rparr>, Undisplayed]\<rparr>)"
  by (simp add: click_def prompt_def insert_text_def w_undisplay_w_display Let_def)

text \<open>
  C8. A prompt is displayed on a workbench, the user types some text and confirms. The
  continuation is resolved with exactly the text typed; the prompt was on top of the
  stack and the stack is afterwards what it was before the prompt was displayed, so a
  prompt that was not on the stack before is not on it now. The continuation resolves
  at most once: whatever is typed afterwards, confirming again raises, changes nothing,
  and the answer stays the one given first.
\<close>

theorem prompt_confirmed_once:
  assumes p: "prompt n c w = (p, w1)" and k: "click (typed ss p) w1 = (r, p2, w2)"
  shows "r = Inr (concat ss) \<and> answer p2 = Some (concat ss)
       \<and> tools (bench w1) = prompt_tool p # tools (bench w)
       \<and> tools (bench w2) = tools (bench w)
       \<and> (prompt_tool p \<notin> set (tools (bench w)) \<longrightarrow> prompt_tool p \<notin> set (tools (bench w2)))
       \<and> click (typed ss' p2) w' = (Inl AlreadyCalledError, typed ss' p2, w')
       \<and> answer (typed ss' p2) = Some (concat ss)"
proof -
  from p have p': "p = \<lparr>prompt_tool = \<lparr>name = n, widget = PromptWidget c\<rparr>, edit_text = [], answer = None\<rparr>"
    and w1: "w1 = w_display \<lparr>name = n, widget = PromptWidget c\<rparr> w"
    by (auto simp: prompt_def Let_def)
  have a: "answer (typed ss p) = None" and e: "edit_text (typed ss p) = concat ss"
    by (simp_all add: typed_def answer_fold edit_text_fold p')
  from k have r: "r = Inr (concat ss)" and p2: "p2 = (typed ss p)\<lparr>answer := Some (concat ss)\<rparr>"
    and w2: "w2 = w\<lparr>bench := restored (bench w),
        trace := trace w @ [Displayed \<lparr>name = n, widget = PromptWidget c\<rparr>, Undisplayed]\<rparr>"
    by (auto simp: click_def a e w1 w_undisplay_w_display Let_def)
  from w1 p' have t1: "tools (bench w1) = prompt_tool p # tools (bench w)"
    by (simp add: w_display_def display_def)
  from w2 have t2: "tools (bench w2) = tools (bench w)"
    by (simp add: tools_restored)
  from p2 have a2: "answer (typed ss' p2) = Some (concat ss)"
    by (simp add: typed_def answer_fold)
  then have "click (typed ss' p2) w' = (Inl AlreadyCalledError, typed ss' p2, w')"
    by (simp add: click_def)
  with r p2 t1 t2 a2 show ?thesis by simp
qed

theorem prompt_confirmed_once_witness:
  "fst (click (typed [''a@b'', ''.com''] (fst (prompt ''E-mail entry'' ''Enter e-mail:'' world_store)))
          (snd (prompt ''E-mail entry'' ''Enter e-mail:'' world_store))) = Inr ''a@b.com''
   \<and> asking \<notin> set (tools (bench world_store))
   \<and> asking \<notin> set (tools (bench (snd (snd
         (click (typed [''a@b'', ''.com''] (fst (prompt ''E-mail entry'' ''Enter e-mail:'' world_store)))
            (snd (prompt ''E-mail entry'' ''Enter e-mail:'' world_store)))))))"
proof -
  let ?p = "fst (prompt ''E-mail entry'' ''Enter e-mail:'' world_store)"
  let ?w1 = "snd (prompt ''E-mail entry'' ''Enter e-mail:'' world_store)"
  let ?k = "click (typed [''a@b'', ''.com''] ?p) ?w1"
  have p: "prompt ''E-mail entry'' ''Enter e-mail:'' world_store = (?p, ?w1)"
    by simp
  have k: "?k = (fst ?k, fst (snd ?k), snd (snd ?k))"
    by simp
  have t: "prompt_tool ?p = asking" and n: "asking \<notin> set (tools (bench world_store))"
    by (simp_all add: prompt_def Let_def asking_def world_store_def Workbench_def)
  from prompt_confirmed_once [OF p k] t n show ?thesis
    by simp
qed

section \<open>The store directory\<close>

lemma prefix_butlast: "prefix q (butlast p) \<Longrightarrow> prefix q p"
  by (metis prefix_order.trans prefixeq_butlast)

lemma strict_prefix_butlast: "strict_prefix q p \<Longrightarrow> prefix q (butlast p)"
  by (metis append_butlast_last_id butlast.simps(1) prefix_snoc strict_prefix_def)

lemma not_prefix_child: "\<not> prefix (child d n) d"
  by (simp add: child_def prefix_def)

lemma mkdir_isdir: "mkdir fs p = Inr fs' \<Longrightarrow> isdir fs' p"
  by (auto simp: mkdir_def isdir_def split: if_splits)

lemma mkdir_frame: "mkdir fs p = Inr fs' \<Longrightarrow> q \<noteq> p \<Longrightarrow> fs' q = fs q"
  by (auto simp: mkdir_def split: if_splits)

lemma makedirs_isdir: "makedirs fs p = Inr fs' \<Longrightarrow> isdir fs' p"
  by (subst (asm) makedirs.simps) (auto split: if_splits sum.splits dest: mkdir_isdir)

text \<open>\<open>makedirs\<close> touches nothing but the path and what is above it.\<close>

lemma makedirs_frame: "makedirs fs p = Inr fs' \<Longrightarrow> \<not> prefix q p \<Longrightarrow> fs' q = fs q"
proof (induction fs p arbitrary: fs' rule: makedirs.induct)
  case (1 fs p)
  from "1.prems"(2) have qp: "q \<noteq> p" by auto
  from "1.prems"(2) have qb: "\<not> prefix q (butlast p)" by (auto dest: prefix_butlast)
  show ?case
  proof (cases "p \<noteq> [] \<and> \<not> path_exists fs (butlast p)")
    case True
    show ?thesis
    proof (cases "makedirs fs (butlast p)")
      case (Inl e)
      with True "1.prems"(1) have "mkdir fs p = Inr fs'"
        by (subst (asm) makedirs.simps) (simp split: if_splits)
      from mkdir_frame [OF this qp] show ?thesis .
    next
      case (Inr fs1)
      with True "1.prems"(1) have m: "mkdir fs1 p = Inr fs'"
        by (subst (asm) makedirs.simps) simp
      from "1.IH" [OF True Inr qb] have "fs1 q = fs q" .
      with mkdir_frame [OF m qp] show ?thesis by simp
    qed
  next
    case False
    with "1.prems"(1) have "mkdir fs p = Inr fs'"
      by (subst (asm) makedirs.simps) (simp split: if_splits)
    from mkdir_frame [OF this qp] show ?thesis .
  qed
qed

text \<open>
  In a tree with no file in the way, \<open>makedirs\<close> of a path that does not exist succeeds
  and leaves a directory at the path and at everything above it.
\<close>

lemma makedirs_creates:
  "tree_shaped fs \<Longrightarrow> no_file_on fs p \<Longrightarrow> \<not> path_exists fs p \<Longrightarrow>
     \<exists>fs'. makedirs fs p = Inr fs' \<and> (\<forall>q. prefix q p \<longrightarrow> isdir fs' q)"
proof (induction fs p rule: makedirs.induct)
  case (1 fs p)
  from "1.prems"(3) have ne: "p \<noteq> []" and np: "fs p = None"
    by (auto simp: path_exists_def)
  show ?case
  proof (cases "path_exists fs (butlast p)")
    case ex: True
    with "1.prems"(2) have d: "isdir fs (butlast p)"
      unfolding no_file_on_def path_exists_def isdir_def
      by (metis node.exhaust option.exhaust prefixeq_butlast)
    with "1.prems"(3) ex have m: "makedirs fs p = Inr (fs(p \<mapsto> Dir))"
      by (subst makedirs.simps) (simp add: mkdir_def)
    have "isdir (fs(p \<mapsto> Dir)) q" if "prefix q p" for q
    proof (cases "q = p")
      case True
      then show ?thesis by (simp add: isdir_def)
    next
      case False
      with that have s: "prefix q (butlast p)"
        by (simp add: strict_prefix_butlast strict_prefix_def)
      have "isdir fs q"
      proof (cases "q = butlast p")
        case True
        with d show ?thesis by simp
      next
        case False
        with s have sp: "strict_prefix q (butlast p)" by (simp add: strict_prefix_def)
        then have "butlast p \<noteq> []" by auto
        with ex have "fs (butlast p) \<noteq> None" by (simp add: path_exists_def)
        with "1.prems"(1) sp show ?thesis unfolding tree_shaped_def by blast
      qed
      with False show ?thesis by (simp add: isdir_def)
    qed
    with m show ?thesis by blast
  next
    case False
    with ne have c: "p \<noteq> [] \<and> \<not> path_exists fs (butlast p)" by simp
    from "1.prems"(2) have nf: "no_file_on fs (butlast p)"
      unfolding no_file_on_def by (blast dest: prefix_butlast)
    from "1.IH" [OF c "1.prems"(1) nf False]
    obtain fs1 where m1: "makedirs fs (butlast p) = Inr fs1"
      and ds: "\<forall>q. prefix q (butlast p) \<longrightarrow> isdir fs1 q"
      by blast
    from ne have "\<not> prefix p (butlast p)"
      by (metis append_butlast_last_id prefix_order.eq_iff prefixeq_butlast self_append_conv
          snoc_eq_iff_butlast)
    from makedirs_frame [OF m1 this] np have "fs1 p = None" by simp
    with ne ds have "mkdir fs1 p = Inr (fs1(p \<mapsto> Dir))"
      by (simp add: mkdir_def path_exists_def)
    with c m1 have m: "makedirs fs p = Inr (fs1(p \<mapsto> Dir))"
      by (subst makedirs.simps) simp
    have "isdir (fs1(p \<mapsto> Dir)) q" if "prefix q p" for q
    proof (cases "q = p")
      case True
      then show ?thesis by (simp add: isdir_def)
    next
      case False
      with that have "prefix q (butlast p)"
        by (simp add: strict_prefix_butlast strict_prefix_def)
      with ds have "isdir fs1 q" by blast
      with False show ?thesis by (simp add: isdir_def)
    qed
    with m show ?thesis by blast
  qed
qed

lemma ensureDirectory_isdir: "ensureDirectory fs p = Inr fs' \<Longrightarrow> isdir fs' p"
  by (auto simp: ensureDirectory_def split: if_splits dest: makedirs_isdir)

lemma ensureDirectory_idle: "isdir fs p \<Longrightarrow> ensureDirectory fs p = Inr fs"
  by (simp add: ensureDirectory_def)

lemma ensureDirectory_frame:
  "ensureDirectory fs p = Inr fs' \<Longrightarrow> \<not> prefix q p \<Longrightarrow> fs' q = fs q"
  by (auto simp: ensureDirectory_def split: if_splits dest: makedirs_frame)

lemma tree_shaped_fs_first_run: "tree_shaped fs_first_run"
  unfolding tree_shaped_def
proof (intro allI impI)
  fix p q :: path
  assume a: "fs_first_run p \<noteq> None \<and> strict_prefix q p"
  then have "p = [''home''] \<or> p = [''home'', ''arthur'']"
    by (auto simp: fs_first_run_def split: if_splits)
  with a have "q = [] \<or> q = [''home'']"
    by (auto simp: strict_prefix_def prefix_Cons)
  then show "isdir fs_first_run q"
    by (auto simp: isdir_def fs_first_run_def)
qed

lemma no_file_on_fs_first_run: "no_file_on fs_first_run p"
  by (auto simp: no_file_on_def fs_first_run_def)

lemma getDataPath_name:
  "getDataPath h system = h @ [if system = ''Windows'' then ''Crypto101'' else ''.crypto101'']"
  by (simp add: getDataPath_def expanduser_def)

text \<open>
  In a tree with no file in the way, the directory step succeeds, the path and
  everything above it are directories afterwards, and nothing else has changed.
\<close>

lemma ensureDirectory_makes:
  assumes h: "tree_shaped fs \<and> no_file_on fs p"
  shows "\<exists>fs'. ensureDirectory fs p = Inr fs' \<and> (\<forall>q. prefix q p \<longrightarrow> isdir fs' q)
                \<and> (\<forall>q. \<not> prefix q p \<longrightarrow> fs' q = fs q)"
proof (cases "isdir fs p")
  case True
  have "isdir fs q" if "prefix q p" for q
  proof (cases "q = p")
    case True
    with \<open>isdir fs p\<close> show ?thesis by simp
  next
    case False
    with that have sp: "strict_prefix q p" by (simp add: strict_prefix_def)
    then have "p \<noteq> []" by auto
    with True have "fs p \<noteq> None" by (simp add: isdir_def)
    with h sp show ?thesis unfolding tree_shaped_def by blast
  qed
  with True show ?thesis by (simp add: ensureDirectory_idle)
next
  case False
  with h have ne: "\<not> path_exists fs p"
    unfolding no_file_on_def isdir_def path_exists_def
    by (metis node.exhaust option.exhaust prefix_order.refl)
  from h makedirs_creates [OF _ _ ne] obtain fs'
    where m: "makedirs fs p = Inr fs'" and d: "\<forall>q. prefix q p \<longrightarrow> isdir fs' q"
    by blast
  from m have "\<forall>q. \<not> prefix q p \<longrightarrow> fs' q = fs q"
    by (blast dest: makedirs_frame)
  with False m d show ?thesis by (simp add: ensureDirectory_def)
qed

section \<open>Writing the credentials\<close>

lemma prefix_take_take: "m \<le> n \<Longrightarrow> prefix (take m xs) (take n xs)"
proof -
  assume "m \<le> n"
  then have "take m xs = take m (take n xs)" by (simp add: min_def)
  then show ?thesis by (metis take_is_prefix)
qed

lemma prefix_passed: "prefix (passed n on_disk handed) handed"
  by (simp add: passed_def take_is_prefix)

lemma writePem_seen:
  assumes "p \<noteq> []" and "fs p \<noteq> Some Dir" and "isdir fs (butlast p)"
    and "write_error en 0 = None" and "write_error en 1 = None" and "close_error en = None"
  shows "writePem en fs p k c =
     (None, [fs(p \<mapsto> File []),
             fs(p \<mapsto> File (passed (flushed en 0) [] (dump_privatekey en k))),
             fs(p \<mapsto> File (passed (flushed en 1) (passed (flushed en 0) [] (dump_privatekey en k))
                              (dump_privatekey en k @ dump_certificate en c))),
             fs(p \<mapsto> File (dump_privatekey en k @ dump_certificate en c))])"
  using assms by (simp add: writePem_def open_wb_def write_file_def close_file_def held_def)

text \<open>Whatever happens in the block, nothing but the identity file is touched.\<close>

lemma writePem_frame:
  assumes "q \<noteq> p"
  shows "last (fs # snd (writePem en fs p k c)) q = fs q"
  using assms
  by (auto simp: writePem_def open_wb_def write_file_def close_file_def
      split: sum.splits if_splits option.splits prod.splits)

text \<open>\<open>_makeCredentials\<close> once the key and the certificate have been made.\<close>

lemma makeCredentials_written:
  assumes "generateKey en = Inr k" and "makeCertificate en k email = Inr c"
  shows "makeCredentials en p email w =
     (case fst (writePem en (files w) (child p ''client.pem'') k c) of
        Some e \<Rightarrow>
          (Some e, w\<lparr>bench := display generating (bench w),
                     files := last (files w # snd (writePem en (files w) (child p ''client.pem'') k c)),
                     trace := trace w @ [Displayed generating, CalledGenerateKey,
                                CalledMakeCertificate k email]\<rparr>)
      | None \<Rightarrow>
          (None, w\<lparr>bench := restored (bench w),
                   files := last (files w # snd (writePem en (files w) (child p ''client.pem'') k c)),
                   trace := trace w @ [Displayed generating, CalledGenerateKey,
                              CalledMakeCertificate k email, Undisplayed]\<rparr>))"
  using assms
  by (simp add: makeCredentials_def Let_def split_beta w_display_def called_def w_undisplay_def
      undisplay_display generating_def del: last.simps split: option.splits)

lemma writePem_None:
  assumes "fst (writePem en fs p k c) = None"
  shows "last (fs # snd (writePem en fs p k c)) =
           fs(p \<mapsto> File (dump_privatekey en k @ dump_certificate en c))"
  using assms
  by (auto simp: writePem_def open_wb_def write_file_def close_file_def
      split: sum.splits if_splits option.splits prod.splits)

lemma makeCredentials_succeeds:
  assumes "generateKey en = Inr k" and "makeCertificate en k email = Inr c"
    and "write_error en 0 = None" and "write_error en 1 = None" and "close_error en = None"
    and "isdir (files w) p" and "files w (child p ''client.pem'') \<noteq> Some Dir"
  shows "makeCredentials en p email w =
     (None, w\<lparr>bench := restored (bench w),
              files := (files w)(child p ''client.pem'' \<mapsto>
                          File (dump_privatekey en k @ dump_certificate en c)),
              trace := trace w @ [Displayed generating, CalledGenerateKey,
                         CalledMakeCertificate k email, Undisplayed]\<rparr>)"
proof -
  have "fst (writePem en (files w) (child p ''client.pem'') k c) = None"
    using assms by (subst writePem_seen) (simp_all add: child_def)
  with writePem_None [OF this] makeCredentials_written [OF assms(1,2)] show ?thesis
    by simp
qed

text \<open>What a call of \<open>_makeCredentials\<close> that returns has done.\<close>

lemma makeCredentials_None:
  assumes "makeCredentials en p email w = (None, w')"
  shows "\<exists>k c. generateKey en = Inr k \<and> makeCertificate en k email = Inr c
           \<and> files w' = (files w)(child p ''client.pem'' \<mapsto>
                             File (dump_privatekey en k @ dump_certificate en c))
           \<and> bench w' = restored (bench w)
           \<and> trace w' = trace w @ [Displayed generating, CalledGenerateKey,
                            CalledMakeCertificate k email, Undisplayed]"
proof -
  from assms obtain k where k: "generateKey en = Inr k"
    by (cases "generateKey en") (simp_all add: makeCredentials_def Let_def)
  from assms k obtain c where c: "makeCertificate en k email = Inr c"
    by (cases "makeCertificate en k email") (simp_all add: makeCredentials_def Let_def)
  let ?pem = "child p ''client.pem''"
  from assms have n: "fst (writePem en (files w) ?pem k c) = None"
    unfolding makeCredentials_written [OF k c]
    by (cases "fst (writePem en (files w) ?pem k c)") simp_all
  with assms have w': "w' = w\<lparr>bench := restored (bench w),
       files := last (files w # snd (writePem en (files w) ?pem k c)),
       trace := trace w @ [Displayed generating, CalledGenerateKey,
                  CalledMakeCertificate k email, Undisplayed]\<rparr>"
    unfolding makeCredentials_written [OF k c] by simp
  from writePem_None [OF n] w' k c show ?thesis
    by simp
qed

text \<open>And it has touched no file but the identity file, whether it returns or raises.\<close>

lemma makeCredentials_frame:
  assumes "q \<noteq> child p ''client.pem''"
  shows "files (snd (makeCredentials en p email w)) q = files w q"
proof (cases "generateKey en")
  case (Inl e)
  then show ?thesis
    by (simp add: makeCredentials_def Let_def w_display_def called_def)
next
  case k: (Inr k)
  show ?thesis
  proof (cases "makeCertificate en k email")
    case (Inl e)
    with k show ?thesis
      by (simp add: makeCredentials_def Let_def w_display_def called_def)
  next
    case (Inr c)
    have "files (snd (makeCredentials en p email w)) =
            last (files w # snd (writePem en (files w) (child p ''client.pem'') k c))"
      unfolding makeCredentials_written [OF k Inr]
      by (cases "fst (writePem en (files w) (child p ''client.pem'') k c)") simp_all
    with writePem_frame [OF assms] show ?thesis by simp
  qed
qed

text \<open>
  Whenever \<open>_makeCredentials\<close> raises, be it in the key generation, in the making of the
  certificate or in the \<open>with\<close> block, line 88 is not reached and the splash is still
  the top tool.
\<close>

lemma makeCredentials_raises:
  assumes "makeCredentials en p email w = (Some e, w')"
  shows "tools (bench w') = generating # tools (bench w)"
  using assms
  apply (simp add: makeCredentials_def Let_def split: sum.splits prod.splits option.splits)
  apply (auto simp: w_display_def called_def w_undisplay_def undisplay_display tools_display
      generating_def)
  done

text \<open>
  C2. The splash of the generation step should be off the stack when the step exits,
  also when the step raises. The code does not see to that. In the first run of user
  \<open>arthur\<close>, who enters \<open>a@b.com\<close>, with a \<open>generateKey\<close> that raises:
  \<open>_makeCredentials\<close> raises, \<open>connect\<close> fails with the same exception, and the splash is
  the one tool left on the workbench.
\<close>

theorem splash_left_when_generateKey_raises:
  "fst (makeCredentials env_keygen_fails [''home'', ''arthur'', ''.crypto101''] ''a@b.com'' world_store)
     = Some (OtherError ''Error()'')
   \<and> tools (bench (snd (makeCredentials env_keygen_fails [''home'', ''arthur'', ''.crypto101'']
                          ''a@b.com'' world_store))) = [generating]
   \<and> fst (connect env_keygen_fails world_first_run) = Fired (Inl (OtherError ''Error()''))
   \<and> tools (bench (snd (connect env_keygen_fails world_first_run))) = [generating]"
  by (simp add: connect_def getContextFactory_def getDataPath_def expanduser_def
      ensureDirectory_def isdir_def makedirs.simps mkdir_def path_exists_def child_def isfile_def
      prompt_def click_def insert_text_def w_display_def w_undisplay_def display_def undisplay_def
      Workbench_def makeCredentials_def Splash_def called_def Let_def generating_def
      env_keygen_fails_def env_refused_def world_first_run_def world_store_def fs_first_run_def
      fs_store_def)

text \<open>
  C3, as stated: whatever a reader of the identity file finds during a save is no file
  or the complete bundle, and no partial file is left when a write fails. It is not so:
  in the store of user \<open>arthur\<close> the reader finds an empty file from the moment the file
  is opened until it is closed, and when the disk is full both writes return, the close
  raises, and the empty file is what is left.
\<close>

theorem identity_write_not_atomic:
  "\<not> list_all (absent_or_complete env_refused (Key 1) (Cert 1))
        (identity_file_seen env_refused fs_store
           [''home'', ''arthur'', ''.crypto101'', ''client.pem''] (Key 1) (Cert 1))
   \<and> identity_file_seen env_refused fs_store
           [''home'', ''arthur'', ''.crypto101'', ''client.pem''] (Key 1) (Cert 1)
       = [None, Some (File []), Some (File []), Some (File []), Some (File ''KEYCERT'')]
   \<and> fst (writePem env_disk_full fs_store
           [''home'', ''arthur'', ''.crypto101'', ''client.pem''] (Key 1) (Cert 1))
       = Some (IOError ''ENOSPC'')
   \<and> last (identity_file_seen env_disk_full fs_store
           [''home'', ''arthur'', ''.crypto101'', ''client.pem''] (Key 1) (Cert 1))
       = Some (File [])"
  by (simp add: absent_or_complete_def identity_file_seen_def writePem_def open_wb_def
      write_file_def close_file_def held_def passed_def isdir_def env_refused_def
      env_disk_full_def fs_store_def)

text \<open>
  C3, amended. The identity file is written in place, through a buffered file object:
  where the file can be opened for writing and neither a write nor the close raises,
  the block ends without an exception, and a reader finds in turn what was there before,
  an empty file once the file is opened, after each write a file that holds a first
  part of the key followed by the certificate (as much as the file object has passed
  on, never less than before), and after the close the key followed by the certificate.
\<close>

theorem identity_written_in_place:
  assumes "p \<noteq> []" and "fs p \<noteq> Some Dir" and "isdir fs (butlast p)"
    and "write_error en 0 = None" and "write_error en 1 = None" and "close_error en = None"
  shows "fst (writePem en fs p k c) = None
       \<and> (\<exists>a b. identity_file_seen en fs p k c =
                  [fs p, Some (File []), Some (File a), Some (File b),
                   Some (File (dump_privatekey en k @ dump_certificate en c))]
               \<and> prefix a b \<and> prefix b (dump_privatekey en k @ dump_certificate en c))"
proof -
  let ?kb = "dump_privatekey en k" and ?cb = "dump_certificate en c"
  let ?a = "passed (flushed en 0) [] ?kb"
  let ?b = "passed (flushed en 1) ?a (?kb @ ?cb)"
  from assms have s: "identity_file_seen en fs p k c =
      [fs p, Some (File []), Some (File ?a), Some (File ?b), Some (File (?kb @ ?cb))]"
    and n: "fst (writePem en fs p k c) = None"
    by (simp_all add: identity_file_seen_def writePem_seen)
  have a: "?a = take (length ?a) (?kb @ ?cb)"
    by (simp add: passed_def)
  have "length ?a \<le> max (length ?a) (min (flushed en 1) (length (?kb @ ?cb)))"
    by simp
  then have "prefix (take (length ?a) (?kb @ ?cb))
               (take (max (length ?a) (min (flushed en 1) (length (?kb @ ?cb)))) (?kb @ ?cb))"
    by (rule prefix_take_take)
  with a have "prefix ?a ?b"
    unfolding passed_def [of "flushed en 1"] by simp
  moreover have "prefix ?b (?kb @ ?cb)"
    by (rule prefix_passed)
  ultimately show ?thesis using s n by blast
qed

theorem identity_written_in_place_witness:
  "fst (writePem env_refused fs_store [''home'', ''arthur'', ''.crypto101'', ''client.pem'']
          (Key 1) (Cert 1)) = None
   \<and> (\<exists>a b. identity_file_seen env_refused fs_store
                [''home'', ''arthur'', ''.crypto101'', ''client.pem''] (Key 1) (Cert 1)
              = [None, Some (File []), Some (File a), Some (File b), Some (File ''KEYCERT'')]
            \<and> prefix a b \<and> prefix b ''KEYCERT'')"
proof -
  have "[''home'', ''arthur'', ''.crypto101'', ''client.pem''] \<noteq> []"
    and "fs_store [''home'', ''arthur'', ''.crypto101'', ''client.pem''] \<noteq> Some Dir"
    and "isdir fs_store (butlast [''home'', ''arthur'', ''.crypto101'', ''client.pem''])"
    and "write_error env_refused 0 = None" and "write_error env_refused 1 = None"
    and "close_error env_refused = None"
    by (simp_all add: fs_store_def isdir_def env_refused_def)
  from identity_written_in_place [OF this, of "Key 1" "Cert 1"] show ?thesis
    by (simp add: env_refused_def fs_store_def)
qed

section \<open>The context factory\<close>

lemma isdir_not_child: "isdir fs d \<Longrightarrow> isdir (fs(child d n \<mapsto> x)) d"
  by (simp add: isdir_def child_def)

lemma getContextFactory_raises:
  "ensureDirectory (files w) (getDataPath (home en) (thisSystem en)) = Inl e \<Longrightarrow>
     getContextFactory en w = (Fired (Inl e), w)"
  by (simp add: getContextFactory_def Let_def)

lemma getContextFactory_ensure:
  "ensureDirectory (files w) (getDataPath (home en) (thisSystem en)) = Inr fs1 \<Longrightarrow>
     getContextFactory en w = getContextFactory en (w\<lparr>files := fs1\<rparr>)"
  by (simp add: getContextFactory_def Let_def ensureDirectory_isdir ensureDirectory_idle)

lemma getContextFactory_existing:
  assumes "isdir (files w) (getDataPath (home en) (thisSystem en))"
    and "isfile (files w) (child (getDataPath (home en) (thisSystem en)) ''client.pem'')"
  shows "getContextFactory en w =
     (Fired (loadContext en (files w) (child (getDataPath (home en) (thisSystem en)) ''client.pem'')), w)"
  using assms by (simp add: getContextFactory_def ensureDirectory_idle)

lemma getContextFactory_waits:
  assumes "isdir (files w) (getDataPath (home en) (thisSystem en))"
    and "\<not> isfile (files w) (child (getDataPath (home en) (thisSystem en)) ''client.pem'')"
    and "entered en = None"
  shows "getContextFactory en w = (Pending, w_display asking w)"
  using assms by (simp add: getContextFactory_def ensureDirectory_idle Let_def prompt_def asking_def)

lemma getContextFactory_fresh:
  assumes d: "isdir (files w) (getDataPath (home en) (thisSystem en))"
    and nf: "\<not> isfile (files w) (child (getDataPath (home en) (thisSystem en)) ''client.pem'')"
    and s: "entered en = Some s"
  shows "getContextFactory en w =
     (case makeCredentials en (getDataPath (home en) (thisSystem en)) s
            (w\<lparr>bench := restored (bench w), trace := trace w @ [Displayed asking, Undisplayed]\<rparr>) of
        (Some e, w4) \<Rightarrow> (Fired (Inl e), w4)
      | (None, w4) \<Rightarrow>
          (Fired (loadContext en (files w4)
                    (child (getDataPath (home en) (thisSystem en)) ''client.pem'')), w4))"
proof -
  have c: "click (insert_text s (fst (prompt ''E-mail entry'' ''Enter e-mail:'' w)))
              (snd (prompt ''E-mail entry'' ''Enter e-mail:'' w)) =
     (Inr s, \<lparr>prompt_tool = asking, edit_text = s, answer = Some s\<rparr>,
      w\<lparr>bench := restored (bench w), trace := trace w @ [Displayed asking, Undisplayed]\<rparr>)"
    by (simp add: click_prompt asking_def)
  from d nf s show ?thesis
    by (simp add: getContextFactory_def ensureDirectory_idle split_beta c Let_def)
qed

text \<open>
  When \<open>_getContextFactory\<close> fires with a context factory, the store directory and the
  identity file are there, the context factory is the one read from the file, and the
  stack of the workbench is what it was.
\<close>

lemma getContextFactory_success:
  assumes "getContextFactory en w = (Fired (Inr ctx), w1)"
  shows "isdir (files w1) (getDataPath (home en) (thisSystem en))
       \<and> isfile (files w1) (child (getDataPath (home en) (thisSystem en)) ''client.pem'')
       \<and> loadContext en (files w1) (child (getDataPath (home en) (thisSystem en)) ''client.pem'')
           = Inr ctx
       \<and> tools (bench w1) = tools (bench w)"
proof -
  let ?d = "getDataPath (home en) (thisSystem en)"
  let ?pem = "child ?d ''client.pem''"
  from assms obtain fs1 where e: "ensureDirectory (files w) ?d = Inr fs1"
    by (cases "ensureDirectory (files w) ?d") (simp_all add: getContextFactory_raises)
  let ?w1 = "w\<lparr>files := fs1\<rparr>"
  from e have dir: "isdir (files ?w1) ?d"
    by (simp add: ensureDirectory_isdir)
  from e assms have g: "getContextFactory en ?w1 = (Fired (Inr ctx), w1)"
    by (simp add: getContextFactory_ensure)
  show ?thesis
  proof (cases "isfile (files ?w1) ?pem")
    case True
    from g [unfolded getContextFactory_existing [OF dir True]]
    have "loadContext en (files ?w1) ?pem = Inr ctx" and "w1 = ?w1"
      by auto
    with dir True show ?thesis by simp
  next
    case False
    show ?thesis
    proof (cases "entered en")
      case None
      from g getContextFactory_waits [OF dir False None] show ?thesis by simp
    next
      case (Some s)
      let ?w3 = "?w1\<lparr>bench := restored (bench ?w1),
                     trace := trace ?w1 @ [Displayed asking, Undisplayed]\<rparr>"
      obtain err w4 where m: "makeCredentials en ?d s ?w3 = (err, w4)"
        by (cases "makeCredentials en ?d s ?w3")
      with g getContextFactory_fresh [OF dir False Some]
      have n: "err = None" and l: "loadContext en (files w4) ?pem = Inr ctx" and w: "w1 = w4"
        by (cases err; simp)+
      from makeCredentials_None [OF m [unfolded n]] obtain k c'
        where f: "files w4 = (files ?w3)(?pem \<mapsto> File (dump_privatekey en k @ dump_certificate en c'))"
          and b: "bench w4 = restored (bench ?w3)"
        by blast
      from f dir have "isdir (files w4) ?d"
        by (simp add: isdir_not_child)
      moreover from f have "isfile (files w4) ?pem"
        by (simp add: isfile_def child_def)
      moreover from b have "tools (bench w4) = tools (bench w)"
        by (simp add: tools_restored)
      ultimately show ?thesis using l w by simp
    qed
  qed
qed

text \<open>
  When it does so from a world without an identity file, it has prompted once and
  generated one key and one certificate.
\<close>

lemma getContextFactory_provisioned:
  assumes g: "getContextFactory en w = (Fired (Inr ctx), w1)"
    and nf: "\<not> isfile (files w) (child (getDataPath (home en) (thisSystem en)) ''client.pem'')"
  shows "\<exists>s k. entered en = Some s \<and> generateKey en = Inr k
           \<and> trace w1 = trace w @ [Displayed asking, Undisplayed, Displayed generating,
                 CalledGenerateKey, CalledMakeCertificate k s, Undisplayed]"
proof -
  let ?d = "getDataPath (home en) (thisSystem en)"
  let ?pem = "child ?d ''client.pem''"
  from g obtain fs1 where e: "ensureDirectory (files w) ?d = Inr fs1"
    by (cases "ensureDirectory (files w) ?d") (simp_all add: getContextFactory_raises)
  let ?w1 = "w\<lparr>files := fs1\<rparr>"
  from e have dir: "isdir (files ?w1) ?d"
    by (simp add: ensureDirectory_isdir)
  from ensureDirectory_frame [OF e not_prefix_child] nf have False: "\<not> isfile (files ?w1) ?pem"
    by (simp add: isfile_def)
  from e g have g1: "getContextFactory en ?w1 = (Fired (Inr ctx), w1)"
    by (simp add: getContextFactory_ensure)
  show ?thesis
  proof (cases "entered en")
    case None
    from g1 getContextFactory_waits [OF dir False None] show ?thesis by simp
  next
    case (Some s)
    let ?w3 = "?w1\<lparr>bench := restored (bench ?w1),
                   trace := trace ?w1 @ [Displayed asking, Undisplayed]\<rparr>"
    obtain err w4 where m: "makeCredentials en ?d s ?w3 = (err, w4)"
      by (cases "makeCredentials en ?d s ?w3")
    with g1 getContextFactory_fresh [OF dir False Some]
    have n: "err = None" and w: "w1 = w4"
      by (cases err; simp)+
    from makeCredentials_None [OF m [unfolded n]] obtain k
      where "generateKey en = Inr k"
        and "trace w4 = trace ?w3 @ [Displayed generating, CalledGenerateKey,
                          CalledMakeCertificate k s, Undisplayed]"
      by blast
    with Some w show ?thesis by simp
  qed
qed

text \<open>
  C4. When the store directory and the identity file exist, \<open>_getContextFactory\<close> leaves
  the world as it is (no prompt is displayed, nothing is generated, nothing is written)
  and fires with what reading and parsing the file gives: with the options of the
  certificate parsed from the file when the file parses. Hence, when a call has fired
  with a context factory, a second call in the world it left changes nothing and fires
  with the same context factory; and the first call either found the identity file, or
  prompted once and generated one key and one certificate: the two calls together
  provision at most once, and exactly once when there was no file.
\<close>

theorem existing_identity_not_provisioned_again:
  "(isdir (files w) (getDataPath (home en) (thisSystem en))
      \<and> isfile (files w) (child (getDataPath (home en) (thisSystem en)) ''client.pem'')
    \<longrightarrow> getContextFactory en w =
          (Fired (loadContext en (files w)
                    (child (getDataPath (home en) (thisSystem en)) ''client.pem'')), w))
   \<and> (isdir (files w) (getDataPath (home en) (thisSystem en))
      \<and> read_file (files w) (child (getDataPath (home en) (thisSystem en)) ''client.pem'')
            = Inr content
      \<and> loadPEM en content = Inr pc
    \<longrightarrow> getContextFactory en w = (Fired (Inr (options en pc)), w))
   \<and> (getContextFactory en w = (Fired (Inr ctx), w1)
    \<longrightarrow> getContextFactory en w1 = (Fired (Inr ctx), w1)
        \<and> (isfile (files w) (child (getDataPath (home en) (thisSystem en)) ''client.pem'')
           \<or> (\<exists>s k. trace w1 = trace w @ [Displayed asking, Undisplayed, Displayed generating,
                 CalledGenerateKey, CalledMakeCertificate k s, Undisplayed])))"
proof (intro conjI impI)
  assume "isdir (files w) (getDataPath (home en) (thisSystem en))
      \<and> isfile (files w) (child (getDataPath (home en) (thisSystem en)) ''client.pem'')"
  then show "getContextFactory en w =
          (Fired (loadContext en (files w)
                    (child (getDataPath (home en) (thisSystem en)) ''client.pem'')), w)"
    by (simp add: getContextFactory_existing)
next
  assume a: "isdir (files w) (getDataPath (home en) (thisSystem en))
      \<and> read_file (files w) (child (getDataPath (home en) (thisSystem en)) ''client.pem'')
            = Inr content
      \<and> loadPEM en content = Inr pc"
  then have "isfile (files w) (child (getDataPath (home en) (thisSystem en)) ''client.pem'')"
    by (auto simp: read_file_def isfile_def split: if_splits option.splits node.splits)
  with a show "getContextFactory en w = (Fired (Inr (options en pc)), w)"
    by (simp add: getContextFactory_existing loadContext_def)
next
  assume "getContextFactory en w = (Fired (Inr ctx), w1)"
  from getContextFactory_success [OF this]
  show "getContextFactory en w1 = (Fired (Inr ctx), w1)"
    by (simp add: getContextFactory_existing)
next
  assume "getContextFactory en w = (Fired (Inr ctx), w1)"
  from getContextFactory_provisioned [OF this]
  show "isfile (files w) (child (getDataPath (home en) (thisSystem en)) ''client.pem'')
           \<or> (\<exists>s k. trace w1 = trace w @ [Displayed asking, Undisplayed, Displayed generating,
                 CalledGenerateKey, CalledMakeCertificate k s, Undisplayed])"
    by blast
qed

lemmas run_defs =
  getContextFactory_def getDataPath_def expanduser_def ensureDirectory_def isdir_def
  makedirs.simps mkdir_def path_exists_def child_def isfile_def prompt_def click_def
  insert_text_def w_display_def w_undisplay_def display_def undisplay_def Workbench_def
  makeCredentials_def Splash_def called_def writePem_def open_wb_def write_file_def
  close_file_def held_def passed_def loadContext_def read_file_def Let_def env_refused_def world_first_run_def world_store_def
  world_with_identity_def fs_first_run_def fs_store_def fs_with_identity_def

lemma first_run_fires:
  "fst (getContextFactory env_refused world_first_run) = Fired (Inr (CertificateOptions 1))"
  by (simp add: run_defs)

lemma first_run_trace:
  "trace (snd (getContextFactory env_refused world_first_run)) =
     [Displayed asking, Undisplayed, Displayed generating, CalledGenerateKey,
      CalledMakeCertificate (Key 1) ''a@b.com'', Undisplayed]"
  by (simp add: run_defs asking_def generating_def)

lemma with_identity_fires:
  "getContextFactory env_refused world_with_identity =
     (Fired (Inr (CertificateOptions 1)), world_with_identity)"
  by (simp add: run_defs)

theorem existing_identity_not_provisioned_again_witness:
  "isdir (files world_with_identity) [''home'', ''arthur'', ''.crypto101'']
   \<and> isfile (files world_with_identity) [''home'', ''arthur'', ''.crypto101'', ''client.pem'']
   \<and> read_file (files world_with_identity) [''home'', ''arthur'', ''.crypto101'', ''client.pem'']
       = Inr ''KEYCERT''
   \<and> loadPEM env_refused ''KEYCERT'' = Inr (PrivateCertificate 1)
   \<and> getContextFactory env_refused world_with_identity =
       (Fired (Inr (CertificateOptions 1)), world_with_identity)
   \<and> fst (getContextFactory env_refused world_first_run) = Fired (Inr (CertificateOptions 1))
   \<and> getContextFactory env_refused (snd (getContextFactory env_refused world_first_run)) =
       (Fired (Inr (CertificateOptions 1)), snd (getContextFactory env_refused world_first_run))
   \<and> trace (snd (getContextFactory env_refused world_first_run)) =
       [Displayed asking, Undisplayed, Displayed generating, CalledGenerateKey,
        CalledMakeCertificate (Key 1) ''a@b.com'', Undisplayed]"
proof -
  note t = existing_identity_not_provisioned_again
  have d: "isdir (files world_with_identity) [''home'', ''arthur'', ''.crypto101'']"
    and f: "isfile (files world_with_identity) [''home'', ''arthur'', ''.crypto101'', ''client.pem'']"
    by (simp_all add: isdir_def isfile_def world_with_identity_def fs_with_identity_def)
  have p: "getDataPath (home env_refused) (thisSystem env_refused) = [''home'', ''arthur'', ''.crypto101'']"
    by (simp add: getDataPath_def expanduser_def env_refused_def)
  have l: "loadContext env_refused (files world_with_identity)
             [''home'', ''arthur'', ''.crypto101'', ''client.pem''] = Inr (CertificateOptions 1)"
    by (simp add: loadContext_def read_file_def env_refused_def world_with_identity_def
        fs_with_identity_def)
  have r: "read_file (files world_with_identity)
             [''home'', ''arthur'', ''.crypto101'', ''client.pem''] = Inr ''KEYCERT''"
    and q: "loadPEM env_refused ''KEYCERT'' = Inr (PrivateCertificate 1)"
    by (simp_all add: read_file_def env_refused_def world_with_identity_def fs_with_identity_def)
  from t [of world_with_identity env_refused, THEN conjunct1] d f
  have 0: "getContextFactory env_refused world_with_identity =
       (Fired (loadContext env_refused (files world_with_identity)
                 [''home'', ''arthur'', ''.crypto101'', ''client.pem'']), world_with_identity)"
    by (simp add: p child_def)
  have d': "isdir (files world_with_identity) (getDataPath (home env_refused) (thisSystem env_refused))"
    and r': "read_file (files world_with_identity)
               (child (getDataPath (home env_refused) (thisSystem env_refused)) ''client.pem'')
             = Inr ''KEYCERT''"
    unfolding p child_def using d r by simp_all
  have o: "options env_refused (PrivateCertificate 1) = CertificateOptions 1"
    by (simp add: env_refused_def)
  from t [of world_with_identity env_refused "''KEYCERT''" "PrivateCertificate 1",
      THEN conjunct2, THEN conjunct1] d' r' q
  have "getContextFactory env_refused world_with_identity =
       (Fired (Inr (options env_refused (PrivateCertificate 1))), world_with_identity)"
    by blast
  then have 1: "getContextFactory env_refused world_with_identity =
       (Fired (Inr (CertificateOptions 1)), world_with_identity)"
    unfolding o .
  have g: "getContextFactory env_refused world_first_run =
       (Fired (Inr (CertificateOptions 1)), snd (getContextFactory env_refused world_first_run))"
    using first_run_fires by (metis prod.collapse)
  from t [where w = world_first_run and en = env_refused and ctx = "CertificateOptions 1"
      and ?w1.0 = "snd (getContextFactory env_refused world_first_run)",
      THEN conjunct2, THEN conjunct2] g
  have 2: "getContextFactory env_refused (snd (getContextFactory env_refused world_first_run)) =
       (Fired (Inr (CertificateOptions 1)), snd (getContextFactory env_refused world_first_run))"
    by blast
  from d f r q 0 1 2 first_run_fires first_run_trace show ?thesis by blast
qed

text \<open>
  C9. Two runs of \<open>_getContextFactory\<close> with the same collaborators: one finds the
  identity file with some contents; the other finds no file, is given an e-mail address,
  and generates a key and a certificate whose PEM texts, written one after the other
  without an exception, are these contents. Both fire with the same result, and it is
  what parsing the contents gives: the generated key and certificate reach the result
  only through the file.
\<close>

theorem context_read_from_identity_file:
  assumes "isdir (files wa) (getDataPath (home en) (thisSystem en))"
    and "read_file (files wa) (child (getDataPath (home en) (thisSystem en)) ''client.pem'') = Inr content"
    and "isdir (files wb) (getDataPath (home en) (thisSystem en))"
    and "files wb (child (getDataPath (home en) (thisSystem en)) ''client.pem'') = None"
    and "entered en = Some s" and "generateKey en = Inr k" and "makeCertificate en k s = Inr c"
    and "write_error en 0 = None" and "write_error en 1 = None" and "close_error en = None"
    and "dump_privatekey en k @ dump_certificate en c = content"
  shows "fst (getContextFactory en wa) = fst (getContextFactory en wb)
       \<and> fst (getContextFactory en wb) =
           Fired (case loadPEM en content of Inl e \<Rightarrow> Inl e | Inr pc \<Rightarrow> Inr (options en pc))"
proof -
  let ?d = "getDataPath (home en) (thisSystem en)"
  let ?pem = "child ?d ''client.pem''"
  from assms(2) have fa: "isfile (files wa) ?pem"
    by (auto simp: read_file_def isfile_def split: if_splits option.splits node.splits)
  from assms(1) fa have a: "fst (getContextFactory en wa) = Fired (loadContext en (files wa) ?pem)"
    by (simp add: getContextFactory_existing)
  from assms(2) have la: "loadContext en (files wa) ?pem =
      (case loadPEM en content of Inl e \<Rightarrow> Inl e | Inr pc \<Rightarrow> Inr (options en pc))"
    by (simp add: loadContext_def)
  from assms(4) have nf: "\<not> isfile (files wb) ?pem"
    by (simp add: isfile_def)
  let ?w3 = "wb\<lparr>bench := restored (bench wb), trace := trace wb @ [Displayed asking, Undisplayed]\<rparr>"
  from assms have m: "makeCredentials en ?d s ?w3 =
     (None, ?w3\<lparr>bench := restored (bench ?w3),
              files := (files ?w3)(?pem \<mapsto> File content),
              trace := trace ?w3 @ [Displayed generating, CalledGenerateKey,
                         CalledMakeCertificate k s, Undisplayed]\<rparr>)"
    by (subst makeCredentials_succeeds [where k = k and c = c]) simp_all
  from getContextFactory_fresh [OF assms(3) nf assms(5)] m
  have b: "fst (getContextFactory en wb) =
      Fired (loadContext en ((files wb)(?pem \<mapsto> File content)) ?pem)"
    by simp
  have lb: "loadContext en ((files wb)(?pem \<mapsto> File content)) ?pem =
      (case loadPEM en content of Inl e \<Rightarrow> Inl e | Inr pc \<Rightarrow> Inr (options en pc))"
    by (simp add: loadContext_def read_file_def child_def)
  from a b la lb show ?thesis by simp
qed

theorem context_read_from_identity_file_witness:
  "read_file (files world_with_identity) [''home'', ''arthur'', ''.crypto101'', ''client.pem'']
     = Inr ''KEYCERT''
   \<and> files world_store [''home'', ''arthur'', ''.crypto101'', ''client.pem''] = None
   \<and> fst (getContextFactory env_refused world_with_identity)
       = fst (getContextFactory env_refused world_store)
   \<and> fst (getContextFactory env_refused world_store) = Fired (Inr (CertificateOptions 1))"
proof -
  have p: "getDataPath (home env_refused) (thisSystem env_refused) = [''home'', ''arthur'', ''.crypto101'']"
    by (simp add: getDataPath_def expanduser_def env_refused_def)
  have r: "read_file (files world_with_identity) [''home'', ''arthur'', ''.crypto101'', ''client.pem'']
     = Inr ''KEYCERT''"
    and n: "files world_store [''home'', ''arthur'', ''.crypto101'', ''client.pem''] = None"
    by (simp_all add: read_file_def world_with_identity_def fs_with_identity_def world_store_def
        fs_store_def)
  have "isdir (files world_with_identity) (getDataPath (home env_refused) (thisSystem env_refused))"
    and "read_file (files world_with_identity)
          (child (getDataPath (home env_refused) (thisSystem env_refused)) ''client.pem'') = Inr ''KEYCERT''"
    and "isdir (files world_store) (getDataPath (home env_refused) (thisSystem env_refused))"
    and "files world_store
          (child (getDataPath (home env_refused) (thisSystem env_refused)) ''client.pem'') = None"
    and "entered env_refused = Some ''a@b.com''" and "generateKey env_refused = Inr (Key 1)"
    and "makeCertificate env_refused (Key 1) ''a@b.com'' = Inr (Cert 1)"
    and "write_error env_refused 0 = None" and "write_error env_refused 1 = None"
    and "close_error env_refused = None"
    and "dump_privatekey env_refused (Key 1) @ dump_certificate env_refused (Cert 1) = ''KEYCERT''"
    unfolding p child_def
    by (simp_all add: r n, simp_all add: isdir_def env_refused_def world_with_identity_def
        fs_with_identity_def world_store_def fs_store_def)
  from context_read_from_identity_file [OF this] r n show ?thesis
    by (simp add: env_refused_def)
qed

section \<open>The store directory in the run of the program\<close>

lemma makeCredentials_trace:
  "\<exists>rest. trace (snd (makeCredentials en p email w)) = trace w @ rest"
proof (cases "generateKey en")
  case (Inl e)
  then show ?thesis
    by (simp add: makeCredentials_def Let_def w_display_def called_def)
next
  case k: (Inr k)
  show ?thesis
  proof (cases "makeCertificate en k email")
    case (Inl e)
    with k show ?thesis
      by (simp add: makeCredentials_def Let_def w_display_def called_def)
  next
    case (Inr c)
    show ?thesis
      unfolding makeCredentials_written [OF k Inr]
      by (cases "fst (writePem en (files w) (child p ''client.pem'') k c)") simp_all
  qed
qed

text \<open>
  With the store directory there, \<open>_getContextFactory\<close> goes on from the world as it
  is: it loads the identity file, or its next act is to display the prompt.
\<close>

lemma getContextFactory_goes_on:
  assumes d: "isdir (files w) (getDataPath (home en) (thisSystem en))"
  shows "if isfile (files w) (child (getDataPath (home en) (thisSystem en)) ''client.pem'')
         then getContextFactory en w =
                (Fired (loadContext en (files w)
                          (child (getDataPath (home en) (thisSystem en)) ''client.pem'')), w)
         else take (Suc (length (trace w))) (trace (snd (getContextFactory en w)))
                = trace w @ [Displayed asking]"
proof (cases "isfile (files w) (child (getDataPath (home en) (thisSystem en)) ''client.pem'')")
  case True
  with getContextFactory_existing [OF d True] show ?thesis by simp
next
  case False
  have "take (Suc (length (trace w))) (trace (snd (getContextFactory en w)))
          = trace w @ [Displayed asking]"
  proof (cases "entered en")
    case None
    from getContextFactory_waits [OF d False None] show ?thesis
      by (simp add: w_display_def)
  next
    case (Some s)
    let ?w3 = "w\<lparr>bench := restored (bench w), trace := trace w @ [Displayed asking, Undisplayed]\<rparr>"
    let ?m = "makeCredentials en (getDataPath (home en) (thisSystem en)) s ?w3"
    from getContextFactory_fresh [OF d False Some]
    have "snd (getContextFactory en w) = snd ?m"
      by (cases ?m; cases "fst ?m"; simp)
    moreover from makeCredentials_trace [of en _ s ?w3]
    obtain rest where "trace (snd ?m) = trace ?w3 @ rest"
      by blast
    ultimately show ?thesis by simp
  qed
  with False show ?thesis by simp
qed

text \<open>
  Whatever \<open>_getContextFactory\<close> does after the directory step, it leaves every path
  but the identity file as that step left it.
\<close>

lemma getContextFactory_files:
  assumes e: "ensureDirectory (files w) (getDataPath (home en) (thisSystem en)) = Inr fs1"
    and q: "q \<noteq> child (getDataPath (home en) (thisSystem en)) ''client.pem''"
  shows "files (snd (getContextFactory en w)) q = fs1 q"
proof -
  let ?d = "getDataPath (home en) (thisSystem en)"
  let ?pem = "child ?d ''client.pem''"
  let ?w1 = "w\<lparr>files := fs1\<rparr>"
  from e have dir: "isdir (files ?w1) ?d"
    by (simp add: ensureDirectory_isdir)
  from e have g: "getContextFactory en w = getContextFactory en ?w1"
    by (rule getContextFactory_ensure)
  have "files (snd (getContextFactory en ?w1)) q = fs1 q"
  proof (cases "isfile (files ?w1) ?pem")
    case True
    from getContextFactory_existing [OF dir True] show ?thesis by simp
  next
    case False
    show ?thesis
    proof (cases "entered en")
      case None
      from getContextFactory_waits [OF dir False None] show ?thesis
        by (simp add: w_display_def)
    next
      case (Some s)
      let ?w3 = "?w1\<lparr>bench := restored (bench ?w1),
                     trace := trace ?w1 @ [Displayed asking, Undisplayed]\<rparr>"
      let ?m = "makeCredentials en ?d s ?w3"
      from getContextFactory_fresh [OF dir False Some]
      have "snd (getContextFactory en ?w1) = snd ?m"
        by (cases ?m; cases "fst ?m"; simp)
      with makeCredentials_frame [OF q, of en s ?w3] show ?thesis by simp
    qed
  qed
  with g show ?thesis by simp
qed

text \<open>
  C6. The store directory is the home directory followed by one name, \<open>Crypto101\<close> when
  the platform is Windows and \<open>.crypto101\<close> otherwise. The directory step of lines 57
  and 58 does not fail and changes nothing when the path is a directory already; when
  the file system is a tree and no regular file lies at the path or above it, the step
  succeeds, the path and everything above it are directories afterwards, and nothing
  else has changed. So it is in the run of \<open>_getContextFactory\<close>: from a tree with no
  regular file at the store directory or above it, the store directory and everything
  above it are directories in the world the function leaves, however it ends; and when
  the store directory is there already, the function does not fail on it but goes on
  from the world as it is, to load the identity file or, as its next act, to display
  the prompt.
\<close>

theorem store_directory_located_and_made:
  "getDataPath h system = h @ [if system = ''Windows'' then ''Crypto101'' else ''.crypto101'']
   \<and> strict_prefix h (getDataPath h system)
   \<and> (isdir fs p \<longrightarrow> ensureDirectory fs p = Inr fs)
   \<and> (tree_shaped fs \<and> no_file_on fs p \<longrightarrow>
        (\<exists>fs'. ensureDirectory fs p = Inr fs' \<and> (\<forall>q. prefix q p \<longrightarrow> isdir fs' q)
                \<and> (\<forall>q. \<not> prefix q p \<longrightarrow> fs' q = fs q)))
   \<and> (tree_shaped (files w) \<and> no_file_on (files w) (getDataPath (home en) (thisSystem en)) \<longrightarrow>
        (\<forall>q. prefix q (getDataPath (home en) (thisSystem en)) \<longrightarrow>
              isdir (files (snd (getContextFactory en w))) q))
   \<and> (isdir (files w) (getDataPath (home en) (thisSystem en)) \<longrightarrow>
        (if isfile (files w) (child (getDataPath (home en) (thisSystem en)) ''client.pem'')
         then getContextFactory en w =
                (Fired (loadContext en (files w)
                          (child (getDataPath (home en) (thisSystem en)) ''client.pem'')), w)
         else take (Suc (length (trace w))) (trace (snd (getContextFactory en w)))
                = trace w @ [Displayed asking]))"
proof (intro conjI impI allI)
  show g: "getDataPath h system = h @ [if system = ''Windows'' then ''Crypto101'' else ''.crypto101'']"
    by (rule getDataPath_name)
  show "strict_prefix h (getDataPath h system)"
    unfolding g by (simp add: strict_prefix_def)
  show "ensureDirectory fs p = Inr fs" if "isdir fs p"
    using that by (rule ensureDirectory_idle)
  show "\<exists>fs'. ensureDirectory fs p = Inr fs' \<and> (\<forall>q. prefix q p \<longrightarrow> isdir fs' q)
                \<and> (\<forall>q. \<not> prefix q p \<longrightarrow> fs' q = fs q)"
    if "tree_shaped fs \<and> no_file_on fs p"
    using that by (rule ensureDirectory_makes)
  show "isdir (files (snd (getContextFactory en w))) q"
    if h: "tree_shaped (files w) \<and> no_file_on (files w) (getDataPath (home en) (thisSystem en))"
      and q: "prefix q (getDataPath (home en) (thisSystem en))" for q
  proof -
    from ensureDirectory_makes [OF h] obtain fs1
      where e: "ensureDirectory (files w) (getDataPath (home en) (thisSystem en)) = Inr fs1"
        and d: "\<forall>q. prefix q (getDataPath (home en) (thisSystem en)) \<longrightarrow> isdir fs1 q"
      by blast
    from q have "q \<noteq> child (getDataPath (home en) (thisSystem en)) ''client.pem''"
      using not_prefix_child by blast
    from getContextFactory_files [OF e this] d q show ?thesis
      by (simp add: isdir_def)
  qed
  show "if isfile (files w) (child (getDataPath (home en) (thisSystem en)) ''client.pem'')
         then getContextFactory en w =
                (Fired (loadContext en (files w)
                          (child (getDataPath (home en) (thisSystem en)) ''client.pem'')), w)
         else take (Suc (length (trace w))) (trace (snd (getContextFactory en w)))
                = trace w @ [Displayed asking]"
    if "isdir (files w) (getDataPath (home en) (thisSystem en))"
    using that by (rule getContextFactory_goes_on)
qed

theorem store_directory_located_and_made_witness:
  "getDataPath [''home'', ''arthur''] ''Linux'' = [''home'', ''arthur'', ''.crypto101'']
   \<and> getDataPath [''home'', ''arthur''] ''Windows'' = [''home'', ''arthur'', ''Crypto101'']
   \<and> isdir fs_store [''home'', ''arthur'', ''.crypto101'']
   \<and> ensureDirectory fs_store [''home'', ''arthur'', ''.crypto101''] = Inr fs_store
   \<and> tree_shaped fs_first_run
   \<and> no_file_on fs_first_run [''home'', ''arthur'', ''.crypto101'']
   \<and> (\<exists>fs'. ensureDirectory fs_first_run [''home'', ''arthur'', ''.crypto101''] = Inr fs'
          \<and> isdir fs' [''home'', ''arthur'', ''.crypto101''] \<and> isdir fs' [''home'', ''arthur'']
          \<and> fs' [''etc''] = None)
   \<and> \<not> isdir (files world_first_run) [''home'', ''arthur'', ''.crypto101'']
   \<and> isdir (files (snd (getContextFactory env_refused world_first_run)))
        [''home'', ''arthur'', ''.crypto101'']
   \<and> isdir (files world_store) [''home'', ''arthur'', ''.crypto101'']
   \<and> \<not> isfile (files world_store) [''home'', ''arthur'', ''.crypto101'', ''client.pem'']
   \<and> take 1 (trace (snd (getContextFactory env_refused world_store))) = [Displayed asking]"
proof -
  note t = store_directory_located_and_made
  have p: "getDataPath (home env_refused) (thisSystem env_refused) = [''home'', ''arthur'', ''.crypto101'']"
    by (simp add: getDataPath_def expanduser_def env_refused_def)
  have d: "isdir fs_store [''home'', ''arthur'', ''.crypto101'']"
    by (simp add: isdir_def fs_store_def)
  have h: "tree_shaped fs_first_run \<and> no_file_on fs_first_run [''home'', ''arthur'', ''.crypto101'']"
    by (simp add: tree_shaped_fs_first_run no_file_on_fs_first_run)
  from t [of "[''home'', ''arthur'']" "''Linux''"]
  have 1: "getDataPath [''home'', ''arthur''] ''Linux'' = [''home'', ''arthur'', ''.crypto101'']"
    by simp
  from t [of "[''home'', ''arthur'']" "''Windows''"]
  have 2: "getDataPath [''home'', ''arthur''] ''Windows'' = [''home'', ''arthur'', ''Crypto101'']"
    by simp
  from t [where fs = fs_store and p = "[''home'', ''arthur'', ''.crypto101'']"] d
  have 3: "ensureDirectory fs_store [''home'', ''arthur'', ''.crypto101''] = Inr fs_store"
    by blast
  from t [where fs = fs_first_run and p = "[''home'', ''arthur'', ''.crypto101'']"] h
  obtain fs' where e: "ensureDirectory fs_first_run [''home'', ''arthur'', ''.crypto101''] = Inr fs'"
    and a: "\<forall>q. prefix q [''home'', ''arthur'', ''.crypto101''] \<longrightarrow> isdir fs' q"
    and b: "\<forall>q. \<not> prefix q [''home'', ''arthur'', ''.crypto101''] \<longrightarrow> fs' q = fs_first_run q"
    by blast
  from a have "isdir fs' [''home'', ''arthur'', ''.crypto101'']" and "isdir fs' [''home'', ''arthur'']"
    by simp_all
  moreover from b have "fs' [''etc''] = None"
    by (simp add: fs_first_run_def)
  ultimately have 4: "\<exists>fs'. ensureDirectory fs_first_run [''home'', ''arthur'', ''.crypto101''] = Inr fs'
          \<and> isdir fs' [''home'', ''arthur'', ''.crypto101''] \<and> isdir fs' [''home'', ''arthur'']
          \<and> fs' [''etc''] = None"
    using e by blast
  have n: "\<not> isdir (files world_first_run) [''home'', ''arthur'', ''.crypto101'']"
    by (simp add: isdir_def world_first_run_def fs_first_run_def)
  have h': "tree_shaped (files world_first_run)
      \<and> no_file_on (files world_first_run) (getDataPath (home env_refused) (thisSystem env_refused))"
    using h by (simp add: p world_first_run_def)
  from t [where w = world_first_run and en = env_refused, THEN conjunct2, THEN conjunct2,
      THEN conjunct2, THEN conjunct2, THEN conjunct1] h'
  have "\<forall>q. prefix q (getDataPath (home env_refused) (thisSystem env_refused)) \<longrightarrow>
          isdir (files (snd (getContextFactory env_refused world_first_run))) q"
    by blast
  then have 5: "isdir (files (snd (getContextFactory env_refused world_first_run)))
        [''home'', ''arthur'', ''.crypto101'']"
    unfolding p by simp
  have d': "isdir (files world_store) [''home'', ''arthur'', ''.crypto101'']"
    and f': "\<not> isfile (files world_store) [''home'', ''arthur'', ''.crypto101'', ''client.pem'']"
    by (simp_all add: isdir_def isfile_def world_store_def fs_store_def)
  from t [where w = world_store and en = env_refused, THEN conjunct2, THEN conjunct2,
      THEN conjunct2, THEN conjunct2, THEN conjunct2] d' f'
  have 6: "take 1 (trace (snd (getContextFactory env_refused world_store))) = [Displayed asking]"
    by (simp add: p child_def world_store_def)
  from 1 2 3 d h 4 n 5 d' f' 6 show ?thesis by blast
qed

section \<open>Connecting\<close>

lemma closeSplash_startConnect:
  "closeSplash r (startConnect ctx w) =
     (r, w\<lparr>bench := restored (bench w),
           trace := trace w @ [Displayed connecting, CalledConnect ''localhost'' 4430 ctx,
                      Undisplayed]\<rparr>)"
  by (simp add: closeSplash_def startConnect_def w_undisplay_called_w_display connecting_def)

lemma attemptFired_success:
  "attemptFired (Inr v) (startConnect ctx w) =
     (Fired (Inr v),
      w\<lparr>bench := restored (bench w),
        trace := trace w @ [Displayed connecting, CalledConnect ''localhost'' 4430 ctx,
                   Undisplayed]\<rparr>)"
  by (simp add: attemptFired_def closeSplash_startConnect)

lemma attemptFired_ConnectError:
  "attemptFired (Inl (ConnectError r)) (startConnect ctx w) =
     (Fired (Inr PyNone),
      w\<lparr>bench := display (notification r) (restored (bench w)),
        trace := trace w @ [Displayed connecting, CalledConnect ''localhost'' 4430 ctx,
                   Undisplayed, Displayed (notification r)]\<rparr>)"
  by (simp add: attemptFired_def closeSplash_startConnect notifyFailure_def alert_def
      w_display_def notification_def)

text \<open>A failure that is no \<open>ConnectError\<close> passes \<open>notifyFailure\<close> as it is.\<close>

lemma attemptFired_other:
  "(\<And>r. f \<noteq> ConnectError r) \<Longrightarrow>
     attemptFired (Inl f) (startConnect ctx w) =
       (Fired (Inl f),
        w\<lparr>bench := restored (bench w),
          trace := trace w @ [Displayed connecting, CalledConnect ''localhost'' 4430 ctx,
                     Undisplayed]\<rparr>)"
  by (cases f) (auto simp: attemptFired_def closeSplash_startConnect notifyFailure_def)

lemma count_Undisplayed_attemptFired:
  "count_list (trace (snd (attemptFired r (startConnect ctx w)))) Undisplayed
     = Suc (count_list (trace w) Undisplayed)"
proof (cases r)
  case (Inl f)
  show ?thesis
  proof (cases f)
    case (ConnectError d)
    with Inl show ?thesis by (simp add: attemptFired_ConnectError)
  qed (simp_all add: Inl attemptFired_other)
next
  case (Inr v)
  then show ?thesis by (simp add: attemptFired_success)
qed

lemma connect_after_context:
  "getContextFactory en w = (Fired (Inr ctx), w1) \<Longrightarrow> endpoint_connect en = Some r \<Longrightarrow>
     connect en w = attemptFired r (startConnect ctx w1)"
  by (simp add: connect_def connectWithContextFactory_def)

text \<open>
  C5. The attempt is started with the \<open>Connecting\<close> splash on top of the stack. Whatever
  the attempt's Deferred fires with, a result or a failure, \<open>closeSplash\<close> returns it
  unchanged and leaves the stack as it was before the splash was displayed, and when
  all the callbacks have run the workbench has been told to undisplay exactly once.
  (No other party displays or undisplays a tool between the start of the attempt and
  its end.)
\<close>

theorem closeSplash_pops_once:
  assumes "endpoint_connect en = Some r"
  shows "tools (bench (startConnect ctx w)) = Splash ''Connecting'' ''Connecting...'' # tools (bench w)
       \<and> fst (closeSplash r (startConnect ctx w)) = r
       \<and> tools (bench (snd (closeSplash r (startConnect ctx w)))) = tools (bench w)
       \<and> count_list (trace (snd (connectWithContextFactory en ctx w))) Undisplayed
           = Suc (count_list (trace w) Undisplayed)"
proof -
  have "tools (bench (startConnect ctx w)) = Splash ''Connecting'' ''Connecting...'' # tools (bench w)"
    by (simp add: startConnect_def called_def w_display_def display_def)
  moreover have "fst (closeSplash r (startConnect ctx w)) = r"
    by (simp add: closeSplash_startConnect)
  moreover have "tools (bench (snd (closeSplash r (startConnect ctx w)))) = tools (bench w)"
    by (simp add: closeSplash_startConnect tools_restored)
  moreover from assms have "count_list (trace (snd (connectWithContextFactory en ctx w))) Undisplayed
           = Suc (count_list (trace w) Undisplayed)"
    by (simp add: connectWithContextFactory_def count_Undisplayed_attemptFired)
  ultimately show ?thesis by blast
qed

theorem closeSplash_pops_once_witness:
  "endpoint_connect env_refused = Some (Inl (ConnectError ''ConnectionRefusedError()''))
   \<and> fst (closeSplash (Inl (ConnectError ''ConnectionRefusedError()''))
            (startConnect (CertificateOptions 1) world_with_identity))
       = Inl (ConnectError ''ConnectionRefusedError()'')
   \<and> tools (bench (snd (closeSplash (Inl (ConnectError ''ConnectionRefusedError()''))
            (startConnect (CertificateOptions 1) world_with_identity)))) = []
   \<and> count_list (trace (snd (connectWithContextFactory env_refused (CertificateOptions 1)
            world_with_identity))) Undisplayed = 1"
proof -
  have e: "endpoint_connect env_refused = Some (Inl (ConnectError ''ConnectionRefusedError()''))"
    by (simp add: env_refused_def)
  from closeSplash_pops_once [OF e, of "CertificateOptions 1" world_with_identity] e
  show ?thesis
    by (simp add: world_with_identity_def Workbench_def)
qed

text \<open>
  C1, as stated: when the attempt fails with a \<open>ConnectError\<close>, the Deferred that
  \<open>connect\<close> returned ends as failed. It does not: for user \<open>arthur\<close> with an identity
  and a server that refuses the connection, it has not failed.
\<close>

theorem connect_refused_not_failed:
  "endpoint_connect env_refused = Some (Inl (ConnectError ''ConnectionRefusedError()''))
   \<and> \<not> failed (fst (connect env_refused world_with_identity))"
proof -
  have "connect env_refused world_with_identity =
          attemptFired (Inl (ConnectError ''ConnectionRefusedError()''))
            (startConnect (CertificateOptions 1) world_with_identity)"
    by (rule connect_after_context [OF with_identity_fires]) (simp add: env_refused_def)
  then show ?thesis
    by (simp add: attemptFired_ConnectError failed_def env_refused_def)
qed

text \<open>
  C1, amended. When the context factory has been obtained and the attempt fails with a
  \<open>ConnectError\<close>, \<open>connect\<close> displays exactly one notification: after the splash has
  been displayed, the attempt made and the splash undisplayed, the one further call on
  the workbench displays it, and it lies on the stack as it was when \<open>connect\<close> was
  called. Its message ends with the \<open>repr\<close> of the error. The Deferred of \<open>connect\<close>
  fires with the result \<open>None\<close>: \<open>notifyFailure\<close> has handled the failure.
\<close>

theorem connect_refused_notifies_and_succeeds:
  assumes "getContextFactory en w = (Fired (Inr ctx), w1)"
    and "endpoint_connect en = Some (Inl (ConnectError r))"
  shows "fst (connect en w) = Fired (Inr PyNone)
       \<and> tools (bench (snd (connect en w))) =
           \<lparr>name = ''Couldn'' @ [CHR 0x27] @ ''t connect'',
             widget = NotificationWidget (failure_text r)\<rparr> # tools (bench w)
       \<and> trace (snd (connect en w)) =
           trace w1 @ [Displayed (Splash ''Connecting'' ''Connecting...''),
                       CalledConnect ''localhost'' 4430 ctx, Undisplayed,
                       Displayed \<lparr>name = ''Couldn'' @ [CHR 0x27] @ ''t connect'',
                                  widget = NotificationWidget (failure_text r)\<rparr>]
       \<and> suffix r (failure_text r)"
proof -
  from assms have "connect en w = attemptFired (Inl (ConnectError r)) (startConnect ctx w1)"
    by (rule connect_after_context)
  moreover from getContextFactory_success [OF assms(1)] have "tools (bench w1) = tools (bench w)"
    by blast
  ultimately show ?thesis
    by (simp add: attemptFired_ConnectError tools_display tools_restored notification_def
        connecting_def failure_text_def suffix_def)
qed

theorem connect_refused_notifies_and_succeeds_witness:
  "getContextFactory env_refused world_with_identity =
     (Fired (Inr (CertificateOptions 1)), world_with_identity)
   \<and> endpoint_connect env_refused = Some (Inl (ConnectError ''ConnectionRefusedError()''))
   \<and> fst (connect env_refused world_with_identity) = Fired (Inr PyNone)
   \<and> tools (bench (snd (connect env_refused world_with_identity))) =
       [\<lparr>name = ''Couldn'' @ [CHR 0x27] @ ''t connect'',
         widget = NotificationWidget (failure_text ''ConnectionRefusedError()'')\<rparr>]
   \<and> suffix ''ConnectionRefusedError()'' (failure_text ''ConnectionRefusedError()'')"
proof -
  have e: "endpoint_connect env_refused = Some (Inl (ConnectError ''ConnectionRefusedError()''))"
    by (simp add: env_refused_def)
  have "tools (bench world_with_identity) = []"
    by (simp add: world_with_identity_def Workbench_def)
  with connect_refused_notifies_and_succeeds [OF with_identity_fires e] with_identity_fires e
  show ?thesis
    by simp
qed

text \<open>
  C10. When the context factory has been obtained and the attempt fails with a
  \<open>ConnectError\<close>, the Deferred of \<open>connect\<close> has fired in the very world that the call
  of \<open>alert\<close> in \<open>notifyFailure\<close> left: the continuation that \<open>alert\<close> returned is
  pending there, nothing waits for it, and the notification is the top tool.
\<close>

theorem connect_fires_before_dismissal:
  assumes "getContextFactory en w = (Fired (Inr ctx), w1)"
    and "endpoint_connect en = Some (Inl (ConnectError r))"
  shows "fst (connect en w) = Fired (Inr PyNone)
       \<and> alert (''Couldn'' @ [CHR 0x27] @ ''t connect'') (failure_text r)
            (snd (closeSplash (Inl (ConnectError r)) (startConnect ctx w1)))
           = (Pending, snd (connect en w))
       \<and> hd (tools (bench (snd (connect en w)))) = notification r"
proof -
  from assms have "connect en w = attemptFired (Inl (ConnectError r)) (startConnect ctx w1)"
    by (rule connect_after_context)
  then show ?thesis
    by (simp add: attemptFired_ConnectError closeSplash_startConnect alert_def w_display_def
        notification_def display_def)
qed

theorem connect_fires_before_dismissal_witness:
  "fst (getContextFactory env_refused world_first_run) = Fired (Inr (CertificateOptions 1))
   \<and> endpoint_connect env_refused = Some (Inl (ConnectError ''ConnectionRefusedError()''))
   \<and> fst (connect env_refused world_first_run) = Fired (Inr PyNone)
   \<and> hd (tools (bench (snd (connect env_refused world_first_run))))
       = notification ''ConnectionRefusedError()''"
proof -
  have e: "endpoint_connect env_refused = Some (Inl (ConnectError ''ConnectionRefusedError()''))"
    by (simp add: env_refused_def)
  have g: "getContextFactory env_refused world_first_run =
       (Fired (Inr (CertificateOptions 1)), snd (getContextFactory env_refused world_first_run))"
    using first_run_fires by (metis prod.collapse)
  from connect_fires_before_dismissal [OF g e] first_run_fires e show ?thesis
    by blast
qed

end
